theory Spec2Isabelle
  imports
    Main
    "HOL-Library.Word"
    "HOL-Library.Char_ord"
    "HOL-Library.List_Lexorder"
    "HOL-Library.Product_Lexorder"
begin

unbundle bit_operations_syntax

section \<open>Data model of \<open>ips.go\<close>\<close>

text \<open>
  A Go \<open>net.IP\<close> is a byte slice; the nil slice and the empty slice are both the empty
  list (the code only ever asks for the length of an address, and a nil result of
  \<open>To4\<close>/\<open>To16\<close> is \<open>None\<close>). A \<open>*net.IPNet\<close> that may be nil is an option.
  Go strings are byte strings, as \<open>string\<close> is here.
\<close>

type_synonym byte = "8 word"
type_synonym IP = "byte list"

record IPNet =
  IP :: IP
  Mask :: "byte list"

record interfaceSpec =
  Spec :: string
  IPv6 :: bool
  Name :: string
  Network :: "IPNet option"
  Index :: int
  HasIndex :: bool

record interfaceIP =
  Name :: string
  IP :: IP

text \<open>
  Every error of the file is made by \<open>fmt.Errorf\<close> or comes from the operating system;
  all that is ever done with one is to read its message. \<open>ErrorString m\<close> is an error
  with message \<open>m\<close>; \<open>NoMatchError specs ips\<close> is the error of \<open>findIPWithSpecs\<close>, kept
  with its two operands.
\<close>

datatype error =
  ErrorString string
  | NoMatchError "interfaceSpec list" "interfaceIP list"

text \<open>
  What \<open>net.Interfaces()\<close> yields for one interface: its name and the result of its
  \<open>Addrs()\<close> call, either an error or the \<open>String()\<close> of each address.
\<close>

record Interface =
  Name :: string
  Addrs :: "error + string list"

section \<open>The Go standard library, as far as \<open>ips.go\<close> uses it\<close>

text \<open>
  Three library functions are parameters of the model: \<open>net.ParseCIDR\<close> (the error
  or the address and the network), \<open>fmt.Sprintf\<close> applied to a format and no operand
  (what \<open>fmt.Errorf(s)\<close> makes of \<open>s\<close>), and \<open>IP.String\<close> on an address that is
  not IPv4. The rest is written out below.
\<close>

record golib =
  ParseCIDR :: "string \<Rightarrow> error + (IP \<times> IPNet)"
  Sprintf0 :: "string \<Rightarrow> string"
  StringNot4 :: "IP \<Rightarrow> string"

subsection \<open>\<open>net.IP\<close>\<close>

definition isZeros :: "byte list \<Rightarrow> bool" where
  "isZeros p = list_all (\<lambda>b. b = 0) p"

definition IP_To4 :: "IP \<Rightarrow> IP option" where
  "IP_To4 ip =
     (if length ip = 4 then Some ip
      else if length ip = 16 \<and> isZeros (take 10 ip) \<and> ip ! 10 = 0xff \<and> ip ! 11 = 0xff
        then Some (drop 12 ip)
      else None)"

definition v4InV6Prefix :: "byte list" where
  "v4InV6Prefix = [0, 0, 0, 0, 0, 0, 0, 0, 0, 0, 0xff, 0xff]"

definition IP_To16 :: "IP \<Rightarrow> IP option" where
  "IP_To16 ip =
     (if length ip = 4 then Some (v4InV6Prefix @ ip)
      else if length ip = 16 then Some ip
      else None)"

definition IPv6loopback :: IP where
  "IPv6loopback = [0, 0, 0, 0, 0, 0, 0, 0, 0, 0, 0, 0, 0, 0, 0, 1]"

definition IP_IsLoopback :: "IP \<Rightarrow> bool" where
  "IP_IsLoopback ip =
     (case IP_To4 ip of
        Some ip4 \<Rightarrow> ip4 ! 0 = 127
      | None \<Rightarrow> ip = IPv6loopback)"

text \<open>\<open>networkNumberAndMask\<close>: \<open>None\<close> is its \<open>(nil, nil)\<close>.\<close>

definition networkNumberAndMask :: "IPNet \<Rightarrow> (IP \<times> byte list) option" where
  "networkNumberAndMask n =
     (case (case IP_To4 (IPNet.IP n) of
              Some x \<Rightarrow> Some x
            | None \<Rightarrow> if length (IPNet.IP n) \<noteq> 16 then None else Some (IPNet.IP n)) of
        None \<Rightarrow> None
      | Some ip \<Rightarrow>
          if length (Mask n) = 4 then
            (if length ip \<noteq> 4 then None else Some (ip, Mask n))
          else if length (Mask n) = 16 then
            (if length ip = 4 then Some (ip, drop 12 (Mask n)) else Some (ip, Mask n))
          else None)"

definition IPNet_Contains :: "IPNet \<Rightarrow> IP \<Rightarrow> bool" where
  "IPNet_Contains n ip0 =
     (let (nn, m) = (case networkNumberAndMask n of None \<Rightarrow> ([], []) | Some p \<Rightarrow> p);
          ip = (case IP_To4 ip0 of Some x \<Rightarrow> x | None \<Rightarrow> ip0)
      in if length ip \<noteq> length nn then False
         else list_all (\<lambda>i. nn ! i AND m ! i = ip ! i AND m ! i) [0..<length ip])"

text \<open>Decimal digits of a number, as \<open>uitoa\<close> writes them.\<close>

fun uitoa :: "nat \<Rightarrow> string" where
  "uitoa n =
     (if n < 10 then [''0123456789'' ! n]
      else uitoa (n div 10) @ [''0123456789'' ! (n mod 10)])"

declare uitoa.simps [simp del]

definition IP_String :: "golib \<Rightarrow> IP \<Rightarrow> string" where
  "IP_String lib ip =
     (if length ip = 0 then ''<nil>''
      else case IP_To4 ip of
        Some p4 \<Rightarrow>
          uitoa (unat (p4 ! 0)) @ ''.'' @ uitoa (unat (p4 ! 1)) @ ''.'' @
          uitoa (unat (p4 ! 2)) @ ''.'' @ uitoa (unat (p4 ! 3))
      | None \<Rightarrow> StringNot4 lib ip)"

subsection \<open>\<open>strings\<close>, \<open>bytes\<close>, \<open>strconv\<close>\<close>

text \<open>
  \<open>strings.Compare\<close> and \<open>bytes.Compare\<close>: lexicographic on the bytes, \<open>-1\<close>, \<open>0\<close> or
  \<open>1\<close>. Characters are ordered by their byte value.
\<close>

fun Compare :: "'a::linorder list \<Rightarrow> 'a list \<Rightarrow> int" where
  "Compare [] [] = 0"
| "Compare [] (y # ys) = - 1"
| "Compare (x # xs) [] = 1"
| "Compare (x # xs) (y # ys) =
     (if x < y then - 1 else if y < x then 1 else Compare xs ys)"

text \<open>\<open>strings.Split(s, " ")\<close>, with the field being read carried along.\<close>

fun Split_from :: "string \<Rightarrow> string \<Rightarrow> string list" where
  "Split_from cur [] = [cur]"
| "Split_from cur (c # cs) =
     (if c = CHR '' '' then cur # Split_from [] cs else Split_from (cur @ [c]) cs)"

definition Split :: "string \<Rightarrow> string list" where
  "Split s = Split_from [] s"

fun Join :: "string list \<Rightarrow> string \<Rightarrow> string" where
  "Join [] sep = []"
| "Join [a] sep = a"
| "Join (a # b # r) sep = a @ sep @ Join (b # r) sep"

definition isDigit :: "char \<Rightarrow> bool" where
  "isDigit c = (48 \<le> (of_char c :: nat) \<and> (of_char c :: nat) \<le> 57)"

definition isWord :: "char \<Rightarrow> bool" where
  "isWord c =
     (isDigit c
      \<or> (65 \<le> (of_char c :: nat) \<and> (of_char c :: nat) \<le> 90)
      \<or> (97 \<le> (of_char c :: nat) \<and> (of_char c :: nat) \<le> 122)
      \<or> c = CHR ''_'')"

text \<open>
  \<open>strconv.Atoi\<close> with a 64-bit \<open>int\<close>: an optional sign, then decimal digits only;
  a value out of the range of \<open>int\<close> is an error.
\<close>

definition digits_value :: "string \<Rightarrow> int" where
  "digits_value ds = foldl (\<lambda>n c. 10 * n + (of_char c - 48)) 0 ds"

definition Atoi :: "string \<Rightarrow> int option" where
  "Atoi s =
     (let neg = (s \<noteq> [] \<and> hd s = CHR ''-'');
          ds = (if s \<noteq> [] \<and> (hd s = CHR ''+'' \<or> hd s = CHR ''-'') then tl s else s);
          v = digits_value ds
      in if ds = [] \<or> \<not> list_all isDigit ds then None
         else if neg then (if v \<le> 2 ^ 63 then Some (- v) else None)
         else (if v < 2 ^ 63 then Some v else None))"

subsection \<open>The regular expression \<open>ifaceSpec\<close>\<close>

text \<open>
  \<^verbatim>\<open>^(?P<Name>\w+)(?:(?:\[(?P<Index>\d+)\])|(?::(?P<Version>inet6?)))?$\<close>

  \<open>FindStringSubmatch\<close>: \<open>None\<close> when the text does not match, else the three groups,
  a group that took no part being empty. What follows the name starts with no word
  character, so the name is the longest prefix of word characters.
\<close>

definition ifaceSpec_FindStringSubmatch :: "string \<Rightarrow> (string \<times> string \<times> string) option" where
  "ifaceSpec_FindStringSubmatch s =
     (let name = takeWhile isWord s; rest = dropWhile isWord s
      in if name = [] then None
         else if rest = [] then Some (name, [], [])
         else if rest = '':inet'' then Some (name, [], ''inet'')
         else if rest = '':inet6'' then Some (name, [], ''inet6'')
         else if hd rest = CHR ''['' \<and> tl rest \<noteq> [] \<and> last (tl rest) = CHR '']''
                 \<and> butlast (tl rest) \<noteq> [] \<and> list_all isDigit (butlast (tl rest))
           then Some (name, butlast (tl rest), [])
         else None)"

section \<open>\<open>interfaceIP\<close> and \<open>interfaceSpec\<close>\<close>

definition To16 :: "interfaceIP \<Rightarrow> IP option" where
  "To16 iip = IP_To16 (interfaceIP.IP iip)"

definition To4 :: "interfaceIP \<Rightarrow> IP option" where
  "To4 iip = IP_To4 (interfaceIP.IP iip)"

definition IsIPv4 :: "interfaceIP \<Rightarrow> bool" where
  "IsIPv4 iip = (To4 iip \<noteq> None)"

definition IPString :: "golib \<Rightarrow> interfaceIP \<Rightarrow> string" where
  "IPString lib iip =
     (case To4 iip of
        Some v4 \<Rightarrow> IP_String lib v4
      | None \<Rightarrow> IP_String lib (interfaceIP.IP iip))"

definition interfaceIP_String :: "golib \<Rightarrow> interfaceIP \<Rightarrow> string" where
  "interfaceIP_String lib iip = interfaceIP.Name iip @ '':'' @ IPString lib iip"

definition interfaceSpec_String :: "interfaceSpec \<Rightarrow> string" where
  "interfaceSpec_String spec = Spec spec"

definition Match :: "interfaceSpec \<Rightarrow> int \<Rightarrow> interfaceIP \<Rightarrow> bool" where
  "Match spec index iip =
     (if interfaceSpec.Name spec = interfaceIP.Name iip \<or> interfaceSpec.Name spec = ''*'' then
        (if HasIndex spec then Index spec = index
         else if interfaceSpec.Name spec = ''*'' \<and> IP_IsLoopback (interfaceIP.IP iip) then False
         else IPv6 spec \<noteq> IsIPv4 iip)
      else (case Network spec of
              Some n \<Rightarrow> IPNet_Contains n (interfaceIP.IP iip)
            | None \<Rightarrow> False))"

text \<open>
  The message of an error. \<open>%s\<close> writes a slice of values with a \<open>String\<close> method as
  their strings between brackets, a space apart.
\<close>

fun Error :: "golib \<Rightarrow> error \<Rightarrow> string" where
  "Error lib (ErrorString m) = m"
| "Error lib (NoMatchError specs ips) =
     ''None of the interface specifications were able to match'' @ [CHR 0x0A] @
     ''Specifications: '' @ ''['' @ Join (map interfaceSpec_String specs) '' '' @ '']'' @ [CHR 0x0A] @
     ''Interfaces IPs: '' @ ''['' @ Join (map (interfaceIP_String lib) ips) '' '' @ '']''"

section \<open>Parsing specifications\<close>

definition parseInterfaceSpec :: "golib \<Rightarrow> string \<Rightarrow> interfaceSpec \<times> error option" where
  "parseInterfaceSpec lib spec =
     (if spec = ''inet'' then
        (\<lparr>Spec = [], IPv6 = False, Name = ''*'', Network = None, Index = 0, HasIndex = False\<rparr>, None)
      else if spec = ''inet6'' then
        (\<lparr>Spec = [], IPv6 = True, Name = ''*'', Network = None, Index = 0, HasIndex = False\<rparr>, None)
      else
        (case ifaceSpec_FindStringSubmatch spec of
           Some (name, index, inet) \<Rightarrow>
             if index \<noteq> [] then
               (case Atoi index of
                  None \<Rightarrow>
                    (\<lparr>Spec = spec, IPv6 = False, Name = [], Network = None, Index = 0,
                      HasIndex = False\<rparr>,
                     Some (ErrorString (''Unable to parse index '' @ index @ '' in '' @ spec)))
                | Some i \<Rightarrow>
                    (\<lparr>Spec = spec, IPv6 = False, Name = name, Network = None, Index = i,
                      HasIndex = True\<rparr>, None))
             else if inet \<noteq> [] then
               (if inet = ''inet'' then
                  (\<lparr>Spec = spec, IPv6 = False, Name = name, Network = None, Index = 0,
                    HasIndex = False\<rparr>, None)
                else
                  (\<lparr>Spec = spec, IPv6 = True, Name = name, Network = None, Index = 0,
                    HasIndex = False\<rparr>, None))
             else
               (\<lparr>Spec = spec, IPv6 = False, Name = name, Network = None, Index = 0,
                 HasIndex = False\<rparr>, None)
         | None \<Rightarrow>
             (case ParseCIDR lib spec of
                Inr (ip, net) \<Rightarrow>
                  (\<lparr>Spec = spec, IPv6 = False, Name = [], Network = Some net, Index = 0,
                    HasIndex = False\<rparr>, None)
              | Inl err \<Rightarrow>
                  (\<lparr>Spec = spec, IPv6 = False, Name = [], Network = None, Index = 0,
                    HasIndex = False\<rparr>,
                   Some (ErrorString (''Unable to parse interface spec: '' @ spec))))))"

text \<open>The loop of \<open>parseInterfaceSpecs\<close>, with its two accumulators.\<close>

fun parseInterfaceSpecs_loop ::
  "golib \<Rightarrow> string list \<Rightarrow> string list \<Rightarrow> interfaceSpec list \<Rightarrow> string list \<times> interfaceSpec list" where
  "parseInterfaceSpecs_loop lib [] errors specs = (errors, specs)"
| "parseInterfaceSpecs_loop lib (iface # rest) errors specs =
     (case parseInterfaceSpec lib iface of
        (spec, Some err) \<Rightarrow> parseInterfaceSpecs_loop lib rest (errors @ [Error lib err]) specs
      | (spec, None) \<Rightarrow> parseInterfaceSpecs_loop lib rest errors (specs @ [spec]))"

definition parseInterfaceSpecs :: "golib \<Rightarrow> string list \<Rightarrow> interfaceSpec list \<times> error option" where
  "parseInterfaceSpecs lib interfaces =
     (case parseInterfaceSpecs_loop lib interfaces [] [] of
        (errors, specs) \<Rightarrow>
          if length errors > 0
          then (specs, Some (ErrorString (Sprintf0 lib (Join errors [CHR 0x0A]))))
          else (specs, None))"

section \<open>Selecting an address\<close>

text \<open>
  The inner loop of \<open>findIPWithSpecs\<close>: \<open>index\<close> and \<open>iface\<close> are the loop's two
  variables as the previous iteration left them.
\<close>

fun scan :: "interfaceSpec \<Rightarrow> int \<Rightarrow> string \<Rightarrow> interfaceIP list \<Rightarrow> interfaceIP option" where
  "scan spec index iface [] = None"
| "scan spec index iface (iip # rest) =
     (let index' = (if iface \<noteq> interfaceIP.Name iip then 0 else index + 1);
          iface' = interfaceIP.Name iip
      in if Match spec index' iip then Some iip else scan spec index' iface' rest)"

text \<open>The value of \<open>index\<close> that each address of the scan is matched with.\<close>

fun counters :: "int \<Rightarrow> string \<Rightarrow> interfaceIP list \<Rightarrow> int list" where
  "counters index iface [] = []"
| "counters index iface (iip # rest) =
     (let index' = (if iface \<noteq> interfaceIP.Name iip then 0 else index + 1)
      in index' # counters index' (interfaceIP.Name iip) rest)"

fun firstMatch :: "interfaceSpec list \<Rightarrow> interfaceIP list \<Rightarrow> interfaceIP option" where
  "firstMatch [] interfaceIPs = None"
| "firstMatch (spec # rest) interfaceIPs =
     (case scan spec 0 [] interfaceIPs of
        Some iip \<Rightarrow> Some iip
      | None \<Rightarrow> firstMatch rest interfaceIPs)"

definition findIPWithSpecs ::
  "golib \<Rightarrow> interfaceSpec list \<Rightarrow> interfaceIP list \<Rightarrow> string \<times> error option" where
  "findIPWithSpecs lib specs interfaceIPs =
     (case firstMatch specs interfaceIPs of
        Some iip \<Rightarrow> (IPString lib iip, None)
      | None \<Rightarrow> ([], Some (NoMatchError specs interfaceIPs)))"

section \<open>Enumerating the addresses\<close>

definition Less :: "interfaceIP \<Rightarrow> interfaceIP \<Rightarrow> bool" where
  "Less iip1 iip2 =
     (let cmp = Compare (interfaceIP.Name iip1) (interfaceIP.Name iip2)
      in if cmp \<noteq> 0 then cmp < 0
         else Compare (case To16 iip1 of Some b \<Rightarrow> b | None \<Rightarrow> [])
                      (case To16 iip2 of Some b \<Rightarrow> b | None \<Rightarrow> []) < 0)"

text \<open>What \<open>Less\<close> compares: the name, then the 16-byte form (empty when there is none).\<close>

definition bytes16 :: "interfaceIP \<Rightarrow> byte list" where
  "bytes16 iip = (case To16 iip of Some b \<Rightarrow> b | None \<Rightarrow> [])"

definition sortKey :: "interfaceIP \<Rightarrow> string \<times> byte list" where
  "sortKey iip = (interfaceIP.Name iip, bytes16 iip)"

text \<open>
  \<open>sort.Stable\<close> sorts by \<open>Less\<close> and keeps elements that are not \<open>Less\<close> either way in
  their original order: insertion from the right, each element put before the first one
  that is not smaller than it.
\<close>

fun Stable_insert :: "('a \<Rightarrow> 'a \<Rightarrow> bool) \<Rightarrow> 'a \<Rightarrow> 'a list \<Rightarrow> 'a list" where
  "Stable_insert lt x [] = [x]"
| "Stable_insert lt x (y # ys) =
     (if lt y x then y # Stable_insert lt x ys else x # y # ys)"

definition Stable :: "('a \<Rightarrow> 'a \<Rightarrow> bool) \<Rightarrow> 'a list \<Rightarrow> 'a list" where
  "Stable lt xs = foldr (Stable_insert lt) xs []"

text \<open>
  The three nested loops of \<open>getinterfaceIPs\<close>, innermost first; the state is the pair
  of \<open>ifaceIPs\<close> and \<open>errors\<close>.
\<close>

fun splitLoop ::
  "golib \<Rightarrow> string \<Rightarrow> string list \<Rightarrow> interfaceIP list \<times> string list \<Rightarrow> interfaceIP list \<times> string list" where
  "splitLoop lib name [] st = st"
| "splitLoop lib name (splitIP # rest) (ifaceIPs, errors) =
     (case ParseCIDR lib splitIP of
        Inl err \<Rightarrow> splitLoop lib name rest (ifaceIPs, errors @ [Error lib err])
      | Inr (ip, net) \<Rightarrow>
          splitLoop lib name rest (ifaceIPs @ [\<lparr>interfaceIP.Name = name, interfaceIP.IP = ip\<rparr>], errors))"

fun addrLoop ::
  "golib \<Rightarrow> string \<Rightarrow> string list \<Rightarrow> interfaceIP list \<times> string list \<Rightarrow> interfaceIP list \<times> string list" where
  "addrLoop lib name [] st = st"
| "addrLoop lib name (ipAddr # rest) st =
     addrLoop lib name rest (splitLoop lib name (Split ipAddr) st)"

fun interfacesLoop ::
  "golib \<Rightarrow> Interface list \<Rightarrow> interfaceIP list \<times> string list \<Rightarrow> interfaceIP list \<times> string list" where
  "interfacesLoop lib [] st = st"
| "interfacesLoop lib (intf # rest) (ifaceIPs, errors) =
     (case Addrs intf of
        Inl addrErr \<Rightarrow> interfacesLoop lib rest (ifaceIPs, errors @ [Error lib addrErr])
      | Inr ipAddrs \<Rightarrow>
          interfacesLoop lib rest (addrLoop lib (Interface.Name intf) ipAddrs (ifaceIPs, errors)))"

definition getinterfaceIPs :: "golib \<Rightarrow> Interface list \<Rightarrow> interfaceIP list \<times> error option" where
  "getinterfaceIPs lib interfaces =
     (case interfacesLoop lib interfaces ([], []) of
        (ifaceIPs, errors) \<Rightarrow>
          if length errors > 0
          then (Stable Less ifaceIPs, Some (ErrorString (Sprintf0 lib (Join errors [CHR 0x0A]))))
          else (Stable Less ifaceIPs, None))"

text \<open>
  What the loops gather, said without the accumulators: the addresses and the error
  messages of each interface in turn, and within an interface those of each address
  text, piece by piece.
\<close>

definition addresses_of_text :: "golib \<Rightarrow> string \<Rightarrow> string \<Rightarrow> interfaceIP list" where
  "addresses_of_text lib name ipAddr =
     List.map_filter
       (\<lambda>splitIP. case ParseCIDR lib splitIP of
          Inl err \<Rightarrow> None
        | Inr (ip, net) \<Rightarrow> Some \<lparr>interfaceIP.Name = name, interfaceIP.IP = ip\<rparr>)
       (Split ipAddr)"

definition errors_of_text :: "golib \<Rightarrow> string \<Rightarrow> string list" where
  "errors_of_text lib ipAddr =
     List.map_filter
       (\<lambda>splitIP. case ParseCIDR lib splitIP of
          Inl err \<Rightarrow> Some (Error lib err)
        | Inr p \<Rightarrow> None)
       (Split ipAddr)"

definition gathered_addresses :: "golib \<Rightarrow> Interface list \<Rightarrow> interfaceIP list" where
  "gathered_addresses lib interfaces =
     concat (map (\<lambda>intf. case Addrs intf of
                     Inl addrErr \<Rightarrow> []
                   | Inr ipAddrs \<Rightarrow>
                       concat (map (addresses_of_text lib (Interface.Name intf)) ipAddrs))
       interfaces)"

definition gathered_errors :: "golib \<Rightarrow> Interface list \<Rightarrow> string list" where
  "gathered_errors lib interfaces =
     concat (map (\<lambda>intf. case Addrs intf of
                     Inl addrErr \<Rightarrow> [Error lib addrErr]
                   | Inr ipAddrs \<Rightarrow> concat (map (errors_of_text lib) ipAddrs))
       interfaces)"

section \<open>The entry point\<close>

text \<open>
  \<open>GetIP\<close>, given what \<open>net.Interfaces()\<close> would return. Writing to the log and to the
  standard error changes no result and is left out.
\<close>

definition GetIP :: "golib \<Rightarrow> error + Interface list \<Rightarrow> string list \<Rightarrow> string \<times> error option" where
  "GetIP lib net_Interfaces specList0 =
     (let specList = (if length specList0 = 0 then [''eth0:inet''] else specList0)
      in case parseInterfaceSpecs lib specList of
           (specs, Some err) \<Rightarrow> ([], Some err)
         | (specs, None) \<Rightarrow>
             (case net_Interfaces of
                Inl interfacesErr \<Rightarrow> ([], Some interfacesErr)
              | Inr interfaces \<Rightarrow>
                  (case getinterfaceIPs lib interfaces of
                     (interfaceIPs, interfaceIPsErr) \<Rightarrow>
                       if interfaceIPsErr \<noteq> None \<and> length interfaceIPs < 1
                       then ([], interfaceIPsErr)
                       else findIPWithSpecs lib specs interfaceIPs)))"

section \<open>A fragment of the library for the examples\<close>

text \<open>
  What the three library functions return on the texts and addresses of the examples
  below: \<open>net.ParseCIDR\<close> gives an IPv4 address in its 16-byte form and the network
  with a 4-byte number and mask, and rejects a text with \<open>invalid CIDR address: \<close>
  and the text; a verb with no operand is written \<open>%!s(MISSING)\<close>.
\<close>

definition v4 :: "byte \<Rightarrow> byte \<Rightarrow> byte \<Rightarrow> byte \<Rightarrow> IP" where
  "v4 a b c d = v4InV6Prefix @ [a, b, c, d]"

definition fe80_1 :: IP where
  "fe80_1 = [0xfe, 0x80, 0, 0, 0, 0, 0, 0, 0, 0, 0, 0, 0, 0, 0, 1]"

definition db8_1 :: IP where
  "db8_1 = [0x20, 0x01, 0x0d, 0xb8, 0, 0, 0, 0, 0, 0, 0, 0, 0, 0, 0, 1]"

definition db8_net :: IPNet where
  "db8_net =
     \<lparr>IPNet.IP = [0x20, 0x01, 0x0d, 0xb8, 0, 0, 0, 0, 0, 0, 0, 0, 0, 0, 0, 0],
      Mask = [0xff, 0xff, 0xff, 0xff, 0, 0, 0, 0, 0, 0, 0, 0, 0, 0, 0, 0]\<rparr>"

definition example_lib :: golib where
  "example_lib =
     \<lparr>ParseCIDR = (\<lambda>s.
        if s = ''192.168.0.0/16'' then
          Inr (v4 192 168 0 0, \<lparr>IPNet.IP = [192, 168, 0, 0], Mask = [255, 255, 0, 0]\<rparr>)
        else if s = ''192.168.5.5/16'' then
          Inr (v4 192 168 5 5, \<lparr>IPNet.IP = [192, 168, 0, 0], Mask = [255, 255, 0, 0]\<rparr>)
        else if s = ''10.0.0.5/24'' then
          Inr (v4 10 0 0 5, \<lparr>IPNet.IP = [10, 0, 0, 0], Mask = [255, 255, 255, 0]\<rparr>)
        else if s = ''10.0.0.6/24'' then
          Inr (v4 10 0 0 6, \<lparr>IPNet.IP = [10, 0, 0, 0], Mask = [255, 255, 255, 0]\<rparr>)
        else if s = ''127.0.0.1/8'' then
          Inr (v4 127 0 0 1, \<lparr>IPNet.IP = [127, 0, 0, 0], Mask = [255, 0, 0, 0]\<rparr>)
        else if s = ''2001:db8::/32'' then
          Inr (IPNet.IP db8_net, db8_net)
        else Inl (ErrorString (''invalid CIDR address: '' @ s))),
      Sprintf0 = (\<lambda>s.
        if s = ''Unable to parse interface spec: %s''
        then ''Unable to parse interface spec: %!s(MISSING)''
        else s),
      StringNot4 = (\<lambda>ip.
        if ip = fe80_1 then ''fe80::1'' else if ip = db8_1 then ''2001:db8::1'' else ''?'')\<rparr>"

section \<open>Facts about the parser\<close>


lemma all_word_not_star: "list_all isWord s \<Longrightarrow> s \<noteq> ''*''"
  by (auto simp: isWord_def isDigit_def)

lemma FindStringSubmatch_bare:
  assumes "s \<noteq> []" "list_all isWord s"
  shows "ifaceSpec_FindStringSubmatch s = Some (s, [], [])"
proof -
  from assms(2) have t: "takeWhile isWord s = s" and d: "dropWhile isWord s = []"
    by (simp_all add: list_all_iff)
  show ?thesis
    unfolding ifaceSpec_FindStringSubmatch_def t d Let_def using assms(1) by simp
qed

lemma FindStringSubmatch_index:
  assumes "name \<noteq> []" "list_all isWord name" "ds \<noteq> []" "list_all isDigit ds"
  shows "ifaceSpec_FindStringSubmatch (name @ CHR ''['' # ds @ '']'') = Some (name, ds, [])"
proof -
  have nw: "\<not> isWord (CHR ''['')" by (simp add: isWord_def isDigit_def)
  from assms(2) have t: "takeWhile isWord (name @ CHR ''['' # ds @ '']'') = name"
    using nw by (simp add: list_all_iff)
  from assms(2) have d: "dropWhile isWord (name @ CHR ''['' # ds @ '']'') = CHR ''['' # ds @ '']''"
    using nw by (simp add: list_all_iff)
  have neq1: "CHR ''['' # ds @ '']'' \<noteq> '':inet''" "CHR ''['' # ds @ '']'' \<noteq> '':inet6''" by simp_all
  have bl: "butlast (ds @ '']'') = ds" "last (ds @ '']'') = CHR '']''" by (simp_all add: butlast_append)
  show ?thesis
    unfolding ifaceSpec_FindStringSubmatch_def t d Let_def
    using assms(1,3,4) neq1 bl by simp
qed

lemma FindStringSubmatch_version:
  assumes "name \<noteq> []" "list_all isWord name" "v = ''inet'' \<or> v = ''inet6''"
  shows "ifaceSpec_FindStringSubmatch (name @ CHR '':'' # v) = Some (name, [], v)"
proof -
  have nw: "\<not> isWord (CHR '':'')" by (simp add: isWord_def isDigit_def)
  from assms(2) have t: "takeWhile isWord (name @ CHR '':'' # v) = name"
    using nw by (simp add: list_all_iff)
  from assms(2) have d: "dropWhile isWord (name @ CHR '':'' # v) = CHR '':'' # v"
    using nw by (simp add: list_all_iff)
  show ?thesis
    unfolding ifaceSpec_FindStringSubmatch_def t d Let_def
    using assms(1,3) by auto
qed

lemma FindStringSubmatch_Some:
  assumes "ifaceSpec_FindStringSubmatch s = Some (name, index, inet)"
  shows "name \<noteq> [] \<and> list_all isWord name \<and> (index = [] \<or> inet = [])
     \<and> (inet = [] \<or> inet = ''inet'' \<or> inet = ''inet6'')
     \<and> (index \<noteq> [] \<longrightarrow> list_all isDigit index)"
  using assms
  by (auto simp: ifaceSpec_FindStringSubmatch_def Let_def list_all_iff split: if_splits dest: set_takeWhileD)

lemma parse_Spec:
  "s \<noteq> ''inet'' \<Longrightarrow> s \<noteq> ''inet6'' \<Longrightarrow> Spec (fst (parseInterfaceSpec lib s)) = s"
  by (auto simp: parseInterfaceSpec_def split: option.splits sum.splits prod.splits)

lemma Atoi_digits:
  assumes "ds \<noteq> []" "list_all isDigit ds"
  shows "Atoi ds = (if digits_value ds < 2 ^ 63 then Some (digits_value ds) else None)"
proof -
  from assms obtain c cs where ds: "ds = c # cs" and c: "isDigit c" by (cases ds) auto
  from c have "c \<noteq> CHR ''+''" "c \<noteq> CHR ''-''" by (auto simp: isDigit_def)
  with assms ds show ?thesis by (simp add: Atoi_def Let_def)
qed

lemma index_text_not_inet:
  "name @ CHR ''['' # ds @ '']'' \<noteq> ''inet''" "name @ CHR ''['' # ds @ '']'' \<noteq> ''inet6''"
proof -
  have "CHR ''['' \<in> set (name @ CHR ''['' # ds @ '']'')" by simp
  then show "name @ CHR ''['' # ds @ '']'' \<noteq> ''inet''" "name @ CHR ''['' # ds @ '']'' \<noteq> ''inet6''"
    by auto
qed

lemma parse_index:
  assumes "name \<noteq> []" "list_all isWord name" "ds \<noteq> []" "list_all isDigit ds"
    and "digits_value ds < 2 ^ 63"
  shows "parseInterfaceSpec lib (name @ CHR ''['' # ds @ '']'') =
      (\<lparr>Spec = name @ CHR ''['' # ds @ '']'', IPv6 = False, Name = name, Network = None,
        Index = digits_value ds, HasIndex = True\<rparr>, None)"
  using assms index_text_not_inet [of name ds]
  by (simp add: parseInterfaceSpec_def FindStringSubmatch_index Atoi_digits)

lemma parse_bare:
  assumes "s \<noteq> []" "list_all isWord s" "s \<noteq> ''inet''" "s \<noteq> ''inet6''"
  shows "parseInterfaceSpec lib s =
      (\<lparr>Spec = s, IPv6 = False, Name = s, Network = None, Index = 0, HasIndex = False\<rparr>, None)"
  using assms by (simp add: parseInterfaceSpec_def FindStringSubmatch_bare)

lemma Match_has_index:
  assumes "HasIndex spec"
    and "interfaceSpec.Name spec = interfaceIP.Name iip \<or> interfaceSpec.Name spec = ''*''"
  shows "Match spec index iip = (Index spec = index)"
  using assms by (auto simp: Match_def)

lemma Match_named_index:
  assumes "HasIndex spec" "Network spec = None" "interfaceSpec.Name spec \<noteq> ''*''"
  shows "Match spec index iip =
     (interfaceIP.Name iip = interfaceSpec.Name spec \<and> index = Index spec)"
  using assms by (auto simp: Match_def)

lemma Match_wildcard:
  assumes "interfaceSpec.Name spec = ''*''" "\<not> HasIndex spec"
  shows "Match spec index iip =
     (\<not> IP_IsLoopback (interfaceIP.IP iip) \<and> IPv6 spec \<noteq> IsIPv4 iip)"
  using assms by (auto simp: Match_def)

lemma scan_no_match:
  "(\<And>iip k. iip \<in> set ips \<Longrightarrow> \<not> Match spec k iip) \<Longrightarrow> scan spec index iface ips = None"
  by (induction ips arbitrary: index iface) (simp_all add: Let_def)

text \<open>
  Claim C10. A rule parsed from \<open>name[index]\<close> matches an address exactly when the
  address is on the interface of that name and the positional counter equals the index.
  Neither the version of the address nor its being a loopback address is looked at:
  replacing the address by any other one leaves the result as it is.
\<close>

theorem C10_index_only:
  assumes "name \<noteq> []" "list_all isWord name" "ds \<noteq> []" "list_all isDigit ds"
    and "digits_value ds < 2 ^ 63"
  shows "snd (parseInterfaceSpec lib (name @ ''['' @ ds @ '']'')) = None
     \<and> HasIndex (fst (parseInterfaceSpec lib (name @ ''['' @ ds @ '']'')))
     \<and> Match (fst (parseInterfaceSpec lib (name @ ''['' @ ds @ '']''))) index iip =
         (interfaceIP.Name iip = name \<and> index = digits_value ds)
     \<and> Match (fst (parseInterfaceSpec lib (name @ ''['' @ ds @ '']''))) index
           (iip\<lparr>interfaceIP.IP := ip'\<rparr>) =
         Match (fst (parseInterfaceSpec lib (name @ ''['' @ ds @ '']''))) index iip"
proof -
  from assms(2) have "name \<noteq> ''*''" by (rule all_word_not_star)
  then show ?thesis
    by (simp add: parse_index [OF assms] Match_named_index)
qed

theorem C10_index_only_witness:
  "Match (fst (parseInterfaceSpec example_lib ''lo[0]'')) 0
     \<lparr>interfaceIP.Name = ''lo'', IP = IPv6loopback\<rparr>
   \<and> IP_IsLoopback IPv6loopback
   \<and> \<not> IsIPv4 \<lparr>interfaceIP.Name = ''lo'', IP = IPv6loopback\<rparr>
   \<and> \<not> Match (fst (parseInterfaceSpec example_lib ''lo[0]'')) 1
     \<lparr>interfaceIP.Name = ''lo'', IP = IPv6loopback\<rparr>"
proof -
  have h: "''lo'' \<noteq> []" "list_all isWord ''lo''" "''0'' \<noteq> []" "list_all isDigit ''0''"
    "digits_value ''0'' < 2 ^ 63"
    by (simp_all add: isWord_def isDigit_def digits_value_def)
  have v: "digits_value ''0'' = 0" by (simp add: digits_value_def)
  have l: "IP_IsLoopback IPv6loopback"
    "\<not> IsIPv4 \<lparr>interfaceIP.Name = ''lo'', IP = IPv6loopback\<rparr>"
    by (simp_all add: IP_IsLoopback_def IsIPv4_def To4_def IP_To4_def IPv6loopback_def isZeros_def)
  show ?thesis
    using C10_index_only [OF h, of example_lib 0 "\<lparr>interfaceIP.Name = ''lo'', IP = IPv6loopback\<rparr>"]
      C10_index_only [OF h, of example_lib 1 "\<lparr>interfaceIP.Name = ''lo'', IP = IPv6loopback\<rparr>"]
      v l
    by simp
qed

lemma parseInterfaceSpecs_loop_eq:
  "parseInterfaceSpecs_loop lib xs errors specs =
     (errors @ List.map_filter (\<lambda>x. map_option (Error lib) (snd (parseInterfaceSpec lib x))) xs,
      specs @ map (\<lambda>x. fst (parseInterfaceSpec lib x))
        (filter (\<lambda>x. snd (parseInterfaceSpec lib x) = None) xs))"
proof (induction xs arbitrary: errors specs)
  case Nil
  show ?case by (simp add: map_filter_simps)
next
  case (Cons x xs)
  obtain sp e where p: "parseInterfaceSpec lib x = (sp, e)"
    by (cases "parseInterfaceSpec lib x")
  show ?case
    by (cases e) (simp_all add: p Cons.IH map_filter_simps)
qed

lemma parseInterfaceSpecs_eq:
  "parseInterfaceSpecs lib xs =
     (map (\<lambda>x. fst (parseInterfaceSpec lib x))
        (filter (\<lambda>x. snd (parseInterfaceSpec lib x) = None) xs),
      if List.map_filter (\<lambda>x. map_option (Error lib) (snd (parseInterfaceSpec lib x))) xs = []
      then None
      else Some (ErrorString (Sprintf0 lib (Join
        (List.map_filter (\<lambda>x. map_option (Error lib) (snd (parseInterfaceSpec lib x))) xs)
        [CHR 0x0A]))))"
  by (simp add: parseInterfaceSpecs_def parseInterfaceSpecs_loop_eq)

lemma map_filter_nonempty:
  "x \<in> set xs \<Longrightarrow> f x \<noteq> None \<Longrightarrow> List.map_filter f xs \<noteq> []"
  by (induction xs) (auto simp: map_filter_simps split: option.splits)

lemma FindStringSubmatch_percent: "ifaceSpec_FindStringSubmatch ''%s'' = None"
  by (simp add: ifaceSpec_FindStringSubmatch_def isWord_def isDigit_def)

lemma parse_eth0:
  "parseInterfaceSpec lib ''eth0'' =
     (\<lparr>Spec = ''eth0'', IPv6 = False, Name = ''eth0'', Network = None, Index = 0,
       HasIndex = False\<rparr>, None)"
  by (rule parse_bare) (simp_all add: isWord_def isDigit_def)

text \<open>
  Claim C9. When one specification string of the list fails to parse, \<open>GetIP\<close> returns
  the empty string and the error of \<open>parseInterfaceSpecs\<close>, whose message is made of
  the messages of the failing items. The result is the same whatever the interfaces of
  the host are, and whatever the other specification strings are.
\<close>

theorem C9_parse_error_stops:
  assumes "s \<in> set specList" and "snd (parseInterfaceSpec lib s) \<noteq> None"
  shows "GetIP lib net_Interfaces specList =
      ([], Some (ErrorString (Sprintf0 lib (Join
        (List.map_filter (\<lambda>x. map_option (Error lib) (snd (parseInterfaceSpec lib x))) specList)
        [CHR 0x0A]))))
    \<and> snd (parseInterfaceSpecs lib specList) = snd (GetIP lib net_Interfaces specList)"
proof -
  from assms(1) have ne: "specList \<noteq> []" by auto
  from assms have "List.map_filter (\<lambda>x. map_option (Error lib) (snd (parseInterfaceSpec lib x))) specList \<noteq> []"
    by (intro map_filter_nonempty [of s]) auto
  then show ?thesis using ne
    by (simp add: GetIP_def parseInterfaceSpecs_eq)
qed

theorem C9_parse_error_stops_witness:
  "GetIP example_lib (Inr [\<lparr>Interface.Name = ''eth0'', Addrs = Inr [''10.0.0.5/24'']\<rparr>])
     [''eth0'', ''a-b''] =
   ([], Some (ErrorString ''Unable to parse interface spec: a-b''))"
proof -
  have w: "ifaceSpec_FindStringSubmatch ''a-b'' = None"
    by (simp add: ifaceSpec_FindStringSubmatch_def isWord_def isDigit_def)
  have p: "parseInterfaceSpec example_lib ''a-b'' =
     (\<lparr>Spec = ''a-b'', IPv6 = False, Name = [], Network = None, Index = 0, HasIndex = False\<rparr>,
      Some (ErrorString ''Unable to parse interface spec: a-b''))"
    by (simp add: parseInterfaceSpec_def w example_lib_def)
  have h: "''a-b'' \<in> set [''eth0'', ''a-b'']" "snd (parseInterfaceSpec example_lib ''a-b'') \<noteq> None"
    by (simp_all add: p)
  have s: "Sprintf0 example_lib ''Unable to parse interface spec: a-b'' =
      ''Unable to parse interface spec: a-b''"
    by (simp add: example_lib_def)
  show ?thesis
    using C9_parse_error_stops [OF h, of "Inr [\<lparr>Interface.Name = ''eth0'', Addrs = Inr [''10.0.0.5/24'']\<rparr>]"]
    by (simp add: p parse_eth0 map_filter_simps s)
qed

text \<open>
  Claim C3, at the texts \<open>inet\<close> and \<open>inet6\<close>. Both are accepted, and the rule that
  comes back has an empty \<open>Spec\<close>: its \<open>String\<close> is the empty string, not the text
  that was parsed. Every other return of \<open>parseInterfaceSpec\<close> stores the text
  (\<open>parse_Spec\<close>).
\<close>

theorem C3_wildcard_text_lost:
  "parseInterfaceSpec lib ''inet'' =
     (\<lparr>Spec = [], IPv6 = False, Name = ''*'', Network = None, Index = 0, HasIndex = False\<rparr>, None)
   \<and> interfaceSpec_String (fst (parseInterfaceSpec lib ''inet'')) = []
   \<and> parseInterfaceSpec lib ''inet6'' =
     (\<lparr>Spec = [], IPv6 = True, Name = ''*'', Network = None, Index = 0, HasIndex = False\<rparr>, None)
   \<and> interfaceSpec_String (fst (parseInterfaceSpec lib ''inet6'')) = []"
  by (simp add: parseInterfaceSpec_def interfaceSpec_String_def)

text \<open>
  Claim C7, at the batch \<open>eth0\<close>, \<open>%s\<close>. The rule of the well-formed item is
  returned, and the message of the failing item is \<open>Unable to parse interface spec: %s\<close>.
  The joined messages are handed to \<open>fmt.Errorf\<close> as its format, so the message of
  the error that comes back is what the library makes of that format with no operand.
\<close>

theorem C7_message_is_a_format:
  assumes "ParseCIDR lib ''%s'' = Inl e"
    and "Sprintf0 lib ''Unable to parse interface spec: %s'' =
      ''Unable to parse interface spec: %!s(MISSING)''"
  shows "parseInterfaceSpecs lib [''eth0'', ''%s''] =
     ([\<lparr>Spec = ''eth0'', IPv6 = False, Name = ''eth0'', Network = None, Index = 0,
        HasIndex = False\<rparr>],
      Some (ErrorString ''Unable to parse interface spec: %!s(MISSING)''))
   \<and> snd (parseInterfaceSpec lib ''%s'') =
      Some (ErrorString ''Unable to parse interface spec: %s'')"
proof -
  have p: "parseInterfaceSpec lib ''%s'' =
     (\<lparr>Spec = ''%s'', IPv6 = False, Name = [], Network = None, Index = 0, HasIndex = False\<rparr>,
      Some (ErrorString ''Unable to parse interface spec: %s''))"
    using assms(1) by (simp add: parseInterfaceSpec_def FindStringSubmatch_percent)
  show ?thesis
    using assms(2) by (simp add: parseInterfaceSpecs_def p parse_eth0)
qed

theorem C7_message_is_a_format_witness:
  "parseInterfaceSpecs example_lib [''eth0'', ''%s''] =
     ([\<lparr>Spec = ''eth0'', IPv6 = False, Name = ''eth0'', Network = None, Index = 0,
        HasIndex = False\<rparr>],
      Some (ErrorString ''Unable to parse interface spec: %!s(MISSING)''))
   \<and> snd (parseInterfaceSpec example_lib ''%s'') =
      Some (ErrorString ''Unable to parse interface spec: %s'')"
proof -
  have h1: "ParseCIDR example_lib ''%s'' = Inl (ErrorString ''invalid CIDR address: %s'')"
    by (simp add: example_lib_def)
  have h2: "Sprintf0 example_lib ''Unable to parse interface spec: %s'' =
      ''Unable to parse interface spec: %!s(MISSING)''"
    by (simp add: example_lib_def)
  show ?thesis by (rule C7_message_is_a_format [OF h1 h2])
qed

section \<open>Matching and the entry point\<close>


text \<open>
  Claim C2, as the code has it. A rule parsed from a bare interface name (a word that is
  neither \<open>inet\<close> nor \<open>inet6\<close>) matches an address exactly when the address is on
  the interface of that name and is an IPv4 address. An IPv6 address of the interface is
  not matched.
\<close>

theorem C2_bare_name_is_IPv4_only:
  assumes "s \<noteq> []" "list_all isWord s" "s \<noteq> ''inet''" "s \<noteq> ''inet6''"
  shows "snd (parseInterfaceSpec lib s) = None
     \<and> Match (fst (parseInterfaceSpec lib s)) index iip =
         (interfaceIP.Name iip = s \<and> IsIPv4 iip)"
proof -
  from assms(2) have "s \<noteq> ''*''" by (rule all_word_not_star)
  then show ?thesis
    by (auto simp: parse_bare [OF assms] Match_def)
qed

lemma IsIPv4_v4: "IsIPv4 \<lparr>interfaceIP.Name = n, IP = v4 a b c d\<rparr>"
  by (simp add: IsIPv4_def To4_def IP_To4_def v4_def v4InV6Prefix_def isZeros_def)

lemma not_IsIPv4_fe80_1: "\<not> IsIPv4 \<lparr>interfaceIP.Name = n, IP = fe80_1\<rparr>"
  by (simp add: IsIPv4_def To4_def IP_To4_def fe80_1_def isZeros_def)

theorem C2_bare_name_is_IPv4_only_witness:
  "Match (fst (parseInterfaceSpec example_lib ''eth0'')) 0
     \<lparr>interfaceIP.Name = ''eth0'', IP = v4 10 0 0 5\<rparr>
   \<and> \<not> Match (fst (parseInterfaceSpec example_lib ''eth0'')) 0
     \<lparr>interfaceIP.Name = ''eth1'', IP = v4 10 0 0 5\<rparr>"
proof -
  have h: "''eth0'' \<noteq> []" "list_all isWord ''eth0''" "''eth0'' \<noteq> ''inet''" "''eth0'' \<noteq> ''inet6''"
    by (simp_all add: isWord_def isDigit_def)
  show ?thesis
    using C2_bare_name_is_IPv4_only [OF h, of example_lib 0 "\<lparr>interfaceIP.Name = ''eth0'', IP = v4 10 0 0 5\<rparr>"]
      C2_bare_name_is_IPv4_only [OF h, of example_lib 0 "\<lparr>interfaceIP.Name = ''eth1'', IP = v4 10 0 0 5\<rparr>"]
    by (simp add: IsIPv4_v4)
qed

text \<open>
  Claim C2 as stated fails: the rule \<open>eth0\<close> does not match the IPv6 address
  \<open>fe80::1\<close> of \<open>eth0\<close>.
\<close>

theorem C2_no_IPv6_counterexample:
  "snd (parseInterfaceSpec example_lib ''eth0'') = None
   \<and> \<not> IsIPv4 \<lparr>interfaceIP.Name = ''eth0'', IP = fe80_1\<rparr>
   \<and> \<not> Match (fst (parseInterfaceSpec example_lib ''eth0'')) 0
        \<lparr>interfaceIP.Name = ''eth0'', IP = fe80_1\<rparr>"
  by (simp add: parse_eth0 Match_def not_IsIPv4_fe80_1)

lemma firstMatch_single_None:
  "scan spec 0 [] ips = None \<Longrightarrow> findIPWithSpecs lib [spec] ips = ([], Some (NoMatchError [spec] ips))"
  by (simp add: findIPWithSpecs_def)

lemma getinterfaceIPs_eq:
  "getinterfaceIPs lib interfaces =
     (Stable Less (fst (interfacesLoop lib interfaces ([], []))),
      if snd (interfacesLoop lib interfaces ([], [])) = [] then None
      else Some (ErrorString (Sprintf0 lib
        (Join (snd (interfacesLoop lib interfaces ([], []))) [CHR 0x0A]))))"
  by (simp add: getinterfaceIPs_def split: prod.splits)

lemma parseInterfaceSpecs_wildcard:
  "s = ''inet'' \<or> s = ''inet6'' \<Longrightarrow>
   parseInterfaceSpecs lib [s] = ([fst (parseInterfaceSpec lib s)], None)"
  by (auto simp: parseInterfaceSpecs_def parseInterfaceSpec_def)

text \<open>
  Claim C8. The rule of \<open>inet\<close> matches exactly the IPv4 addresses that are not
  loopback, the rule of \<open>inet6\<close> exactly the addresses that are not IPv4 and not
  loopback, whatever the interface and the counter. When every address is a loopback
  address, selection with such a rule alone fails with the no-match error, and so does
  \<open>GetIP\<close> on a host where enumeration yields such a list.
\<close>

theorem C8_wildcard_skips_loopback:
  "Match (fst (parseInterfaceSpec lib ''inet'')) index iip =
     (\<not> IP_IsLoopback (interfaceIP.IP iip) \<and> IsIPv4 iip)
   \<and> Match (fst (parseInterfaceSpec lib ''inet6'')) index iip =
     (\<not> IP_IsLoopback (interfaceIP.IP iip) \<and> \<not> IsIPv4 iip)
   \<and> ((s = ''inet'' \<or> s = ''inet6'')
        \<and> list_all (\<lambda>iip. IP_IsLoopback (interfaceIP.IP iip)) ips \<longrightarrow>
      findIPWithSpecs lib [fst (parseInterfaceSpec lib s)] ips =
        ([], Some (NoMatchError [fst (parseInterfaceSpec lib s)] ips)))
   \<and> ((s = ''inet'' \<or> s = ''inet6'')
        \<and> getinterfaceIPs lib interfaces = (ips, err) \<and> ips \<noteq> []
        \<and> list_all (\<lambda>iip. IP_IsLoopback (interfaceIP.IP iip)) ips \<longrightarrow>
      GetIP lib (Inr interfaces) [s] =
        ([], Some (NoMatchError [fst (parseInterfaceSpec lib s)] ips)))"
proof -
  have m4: "Match (fst (parseInterfaceSpec lib ''inet'')) k a =
     (\<not> IP_IsLoopback (interfaceIP.IP a) \<and> IsIPv4 a)" for k a
    by (simp add: parseInterfaceSpec_def Match_wildcard)
  have m6: "Match (fst (parseInterfaceSpec lib ''inet6'')) k a =
     (\<not> IP_IsLoopback (interfaceIP.IP a) \<and> \<not> IsIPv4 a)" for k a
    by (simp add: parseInterfaceSpec_def Match_wildcard)
  have f: "findIPWithSpecs lib [fst (parseInterfaceSpec lib s)] ips =
        ([], Some (NoMatchError [fst (parseInterfaceSpec lib s)] ips))"
    if s: "s = ''inet'' \<or> s = ''inet6''"
      and l: "list_all (\<lambda>iip. IP_IsLoopback (interfaceIP.IP iip)) ips"
  proof -
    from s l have "\<not> Match (fst (parseInterfaceSpec lib s)) k a" if "a \<in> set ips" for k a
      using that m4 m6 by (auto simp: list_all_iff)
    then have "scan (fst (parseInterfaceSpec lib s)) 0 [] ips = None"
      by (rule scan_no_match)
    then show ?thesis by (rule firstMatch_single_None)
  qed
  have g: "GetIP lib (Inr interfaces) [s] =
        ([], Some (NoMatchError [fst (parseInterfaceSpec lib s)] ips))"
    if s: "s = ''inet'' \<or> s = ''inet6''"
      and e: "getinterfaceIPs lib interfaces = (ips, err)" and n: "ips \<noteq> []"
      and l: "list_all (\<lambda>iip. IP_IsLoopback (interfaceIP.IP iip)) ips"
    using f [OF s l] e n by (simp add: GetIP_def parseInterfaceSpecs_wildcard [OF s])
  show ?thesis using m4 m6 f g by blast
qed

lemma Split_examples:
  "Split ''127.0.0.1/8'' = [''127.0.0.1/8'']"
  "Split ''10.0.0.5/24'' = [''10.0.0.5/24'']"
  "Split ''10.0.0.6/24'' = [''10.0.0.6/24'']"
  "Split ''192.168.5.5/16'' = [''192.168.5.5/16'']"
  "Split ''10.0.0.5/24 bogus'' = [''10.0.0.5/24'', ''bogus'']"
  by (simp_all add: Split_def)

lemma IsLoopback_127: "IP_IsLoopback (v4 127 b c d)"
  by (simp add: IP_IsLoopback_def IP_To4_def v4_def v4InV6Prefix_def isZeros_def)

theorem C8_wildcard_skips_loopback_witness:
  "GetIP example_lib (Inr [\<lparr>Interface.Name = ''lo'', Addrs = Inr [''127.0.0.1/8'']\<rparr>]) [''inet''] =
     ([], Some (NoMatchError
        [\<lparr>Spec = [], IPv6 = False, Name = ''*'', Network = None, Index = 0, HasIndex = False\<rparr>]
        [\<lparr>interfaceIP.Name = ''lo'', IP = v4 127 0 0 1\<rparr>]))"
proof -
  have e: "getinterfaceIPs example_lib [\<lparr>Interface.Name = ''lo'', Addrs = Inr [''127.0.0.1/8'']\<rparr>] =
      ([\<lparr>interfaceIP.Name = ''lo'', IP = v4 127 0 0 1\<rparr>], None)"
    by (simp add: getinterfaceIPs_def Split_examples example_lib_def Stable_def)
  have p: "fst (parseInterfaceSpec example_lib ''inet'') =
      \<lparr>Spec = [], IPv6 = False, Name = ''*'', Network = None, Index = 0, HasIndex = False\<rparr>"
    by (simp add: parseInterfaceSpec_def)
  show ?thesis
    using C8_wildcard_skips_loopback [of example_lib _ _ "''inet''"
        "[\<lparr>interfaceIP.Name = ''lo'', IP = v4 127 0 0 1\<rparr>]"
        "[\<lparr>Interface.Name = ''lo'', Addrs = Inr [''127.0.0.1/8'']\<rparr>]" None]
    by (simp add: e p IsLoopback_127)
qed

lemma getinterfaceIPs_err:
  "snd (getinterfaceIPs lib interfaces) = None
   \<or> (\<exists>m. snd (getinterfaceIPs lib interfaces) = Some (ErrorString m))"
  by (simp add: getinterfaceIPs_eq)

lemma findIPWithSpecs_err:
  "snd (findIPWithSpecs lib specs ips) = None
   \<or> snd (findIPWithSpecs lib specs ips) = Some (NoMatchError specs ips)"
  by (simp add: findIPWithSpecs_def split: option.splits)

section \<open>The order of the addresses\<close>


lemma Compare_less: "(Compare a b < 0) = (a < b)"
  by (induction a b rule: Compare.induct) auto

lemma Compare_eq: "(Compare a b = 0) = (a = b)"
  by (induction a b rule: Compare.induct) auto

lemma Compare_le: "(Compare a b \<le> 0) = (a \<le> b)"
  by (induction a b rule: Compare.induct) auto

lemma Less_sortKey: "Less a b = (sortKey a < sortKey b)"
  by (auto simp: Less_def Let_def sortKey_def bytes16_def less_prod_def Compare_less Compare_eq)

lemma Stable_insert_Less: "Stable_insert Less x ys = insort_key sortKey x ys"
  by (induction ys) (auto simp: Less_sortKey)

lemma Stable_Less: "Stable Less xs = sort_key sortKey xs"
  by (induction xs) (simp_all add: Stable_def Stable_insert_Less)

lemma not_Less_iff:
  "(\<not> Less b a) =
     (Compare (interfaceIP.Name a) (interfaceIP.Name b) < 0
      \<or> (interfaceIP.Name a = interfaceIP.Name b \<and> Compare (bytes16 a) (bytes16 b) \<le> 0))"
  by (auto simp: Less_sortKey sortKey_def less_prod_def Compare_less Compare_le)

lemma equivalent_iff: "(\<not> Less a b \<and> \<not> Less b a) = (sortKey b = sortKey a)"
  by (auto simp: Less_sortKey)

lemma sorted_Stable_Less: "sorted_wrt (\<lambda>a b. \<not> Less b a) (Stable Less xs)"
proof -
  have "sorted (map sortKey (sort_key sortKey xs))" by (rule sorted_sort_key)
  then show ?thesis
    by (simp add: Stable_Less sorted_map Less_sortKey not_less)
qed

lemma splitLoop_eq:
  "splitLoop lib name pieces (ifaceIPs, errors) =
     (ifaceIPs @ List.map_filter
        (\<lambda>splitIP. case ParseCIDR lib splitIP of
           Inl err \<Rightarrow> None
         | Inr (ip, net) \<Rightarrow> Some \<lparr>interfaceIP.Name = name, interfaceIP.IP = ip\<rparr>) pieces,
      errors @ List.map_filter
        (\<lambda>splitIP. case ParseCIDR lib splitIP of
           Inl err \<Rightarrow> Some (Error lib err)
         | Inr p \<Rightarrow> None) pieces)"
proof (induction pieces arbitrary: ifaceIPs errors)
  case Nil
  show ?case by (simp add: map_filter_simps)
next
  case (Cons p ps)
  show ?case
    by (cases "ParseCIDR lib p") (auto simp: Cons.IH map_filter_simps)
qed

lemma addrLoop_eq:
  "addrLoop lib name ipAddrs (ifaceIPs, errors) =
     (ifaceIPs @ concat (map (addresses_of_text lib name) ipAddrs),
      errors @ concat (map (errors_of_text lib) ipAddrs))"
proof (induction ipAddrs arbitrary: ifaceIPs errors)
  case Nil
  show ?case by simp
next
  case (Cons a as)
  show ?case
    by (simp add: splitLoop_eq Cons.IH addresses_of_text_def errors_of_text_def)
qed

lemma interfacesLoop_eq:
  "interfacesLoop lib interfaces (ifaceIPs, errors) =
     (ifaceIPs @ gathered_addresses lib interfaces, errors @ gathered_errors lib interfaces)"
proof (induction interfaces arbitrary: ifaceIPs errors)
  case Nil
  show ?case by (simp add: gathered_addresses_def gathered_errors_def)
next
  case (Cons intf rest)
  show ?case
    by (cases "Addrs intf")
      (simp_all add: Cons.IH addrLoop_eq gathered_addresses_def gathered_errors_def)
qed

lemma getinterfaceIPs_gathered:
  "getinterfaceIPs lib interfaces =
     (Stable Less (gathered_addresses lib interfaces),
      if gathered_errors lib interfaces = [] then None
      else Some (ErrorString (Sprintf0 lib (Join (gathered_errors lib interfaces) [CHR 0x0A]))))"
  by (simp add: getinterfaceIPs_def interfacesLoop_eq)

lemma gathered_names:
  assumes "iip \<in> set (gathered_addresses lib interfaces)"
  shows "\<exists>intf\<in>set interfaces. interfaceIP.Name iip = Interface.Name intf"
  using assms
  by (auto simp: gathered_addresses_def addresses_of_text_def map_filter_def
      split: sum.splits prod.splits)

lemma getinterfaceIPs_names:
  assumes "\<forall>intf\<in>set interfaces. Interface.Name intf \<noteq> []"
    and "iip \<in> set (fst (getinterfaceIPs lib interfaces))"
  shows "interfaceIP.Name iip \<noteq> []"
proof -
  from assms(2) have "iip \<in> set (gathered_addresses lib interfaces)"
    by (simp add: getinterfaceIPs_gathered Stable_Less)
  from gathered_names [OF this] assms(1) show ?thesis by auto
qed

lemma bytes16_explicit:
  "bytes16 a =
     (if length (interfaceIP.IP a) = 4
      then [0, 0, 0, 0, 0, 0, 0, 0, 0, 0, 0xff, 0xff] @ interfaceIP.IP a
      else if length (interfaceIP.IP a) = 16 then interfaceIP.IP a else [])"
  by (simp add: bytes16_def To16_def IP_To16_def v4InV6Prefix_def)

lemma Less_explicit:
  "Less a b =
     (interfaceIP.Name a < interfaceIP.Name b
      \<or> (interfaceIP.Name a = interfaceIP.Name b \<and> bytes16 a < bytes16 b))"
  by (auto simp: Less_sortKey sortKey_def less_prod_def)

lemma not_Less_explicit:
  "(\<not> Less b a) =
     (interfaceIP.Name a < interfaceIP.Name b
      \<or> (interfaceIP.Name a = interfaceIP.Name b \<and> bytes16 a \<le> bytes16 b))"
  by (auto simp: Less_explicit)

text \<open>
  Claim C5. The list that \<open>getinterfaceIPs\<close> returns, which is the list \<open>GetIP\<close>
  hands to \<open>findIPWithSpecs\<close>, is sorted: of two addresses the earlier one has the
  smaller interface name, or the same name and a 16-byte form that is not greater. The
  16-byte form of a 4-byte address is the address after the twelve bytes
  \<open>00 .. 00 ff ff\<close>, that of a 16-byte address is the address itself, and \<open>Less\<close>
  is the strict order on the pairs of name and 16-byte form. The sort is stable: the
  addresses that compare equal to a given one are in the order in which they were
  gathered, and the list holds the addresses gathered and no other. Sorting a sorted
  list again changes nothing.
\<close>

theorem C5_sorted_and_stable:
  "sorted_wrt (\<lambda>a b. \<not> Less b a) (fst (getinterfaceIPs lib interfaces))
   \<and> sorted_wrt (\<lambda>a b. Compare (interfaceIP.Name a) (interfaceIP.Name b) < 0
        \<or> (interfaceIP.Name a = interfaceIP.Name b \<and> Compare (bytes16 a) (bytes16 b) \<le> 0))
      (fst (getinterfaceIPs lib interfaces))
   \<and> filter (\<lambda>b. \<not> Less a b \<and> \<not> Less b a) (fst (getinterfaceIPs lib interfaces)) =
      filter (\<lambda>b. \<not> Less a b \<and> \<not> Less b a) (fst (interfacesLoop lib interfaces ([], [])))
   \<and> set (fst (getinterfaceIPs lib interfaces)) = set (fst (interfacesLoop lib interfaces ([], [])))
   \<and> length (fst (getinterfaceIPs lib interfaces)) =
      length (fst (interfacesLoop lib interfaces ([], [])))
   \<and> Stable Less (fst (getinterfaceIPs lib interfaces)) = fst (getinterfaceIPs lib interfaces)
   \<and> Stable Less (Stable Less xs) = Stable Less xs
   \<and> bytes16 a =
      (if length (interfaceIP.IP a) = 4
       then [0, 0, 0, 0, 0, 0, 0, 0, 0, 0, 0xff, 0xff] @ interfaceIP.IP a
       else if length (interfaceIP.IP a) = 16 then interfaceIP.IP a else [])
   \<and> Less a b =
      (interfaceIP.Name a < interfaceIP.Name b
       \<or> (interfaceIP.Name a = interfaceIP.Name b
          \<and> (if length (interfaceIP.IP a) = 4
              then [0, 0, 0, 0, 0, 0, 0, 0, 0, 0, 0xff, 0xff] @ interfaceIP.IP a
              else if length (interfaceIP.IP a) = 16 then interfaceIP.IP a else [])
            < (if length (interfaceIP.IP b) = 4
               then [0, 0, 0, 0, 0, 0, 0, 0, 0, 0, 0xff, 0xff] @ interfaceIP.IP b
               else if length (interfaceIP.IP b) = 16 then interfaceIP.IP b else [])))
   \<and> sorted_wrt
        (\<lambda>a b. interfaceIP.Name a < interfaceIP.Name b
           \<or> (interfaceIP.Name a = interfaceIP.Name b
              \<and> (if length (interfaceIP.IP a) = 4
                  then [0, 0, 0, 0, 0, 0, 0, 0, 0, 0, 0xff, 0xff] @ interfaceIP.IP a
                  else if length (interfaceIP.IP a) = 16 then interfaceIP.IP a else [])
                \<le> (if length (interfaceIP.IP b) = 4
                   then [0, 0, 0, 0, 0, 0, 0, 0, 0, 0, 0xff, 0xff] @ interfaceIP.IP b
                   else if length (interfaceIP.IP b) = 16 then interfaceIP.IP b else [])))
        (fst (getinterfaceIPs lib interfaces))
   \<and> fst (interfacesLoop lib interfaces ([], [])) = gathered_addresses lib interfaces"
proof -
  let ?g = "fst (interfacesLoop lib interfaces ([], []))"
  have o: "fst (getinterfaceIPs lib interfaces) = Stable Less ?g"
    by (simp add: getinterfaceIPs_eq)
  have s1: "sorted_wrt (\<lambda>a b. \<not> Less b a) (Stable Less ?g)"
    by (rule sorted_Stable_Less)
  have s2: "sorted_wrt (\<lambda>a b. Compare (interfaceIP.Name a) (interfaceIP.Name b) < 0
        \<or> (interfaceIP.Name a = interfaceIP.Name b \<and> Compare (bytes16 a) (bytes16 b) \<le> 0))
      (Stable Less ?g)"
    using s1 by (simp add: not_Less_iff)
  have st: "filter (\<lambda>b. \<not> Less a b \<and> \<not> Less b a) (Stable Less ?g) =
      filter (\<lambda>b. \<not> Less a b \<and> \<not> Less b a) ?g"
    by (simp add: equivalent_iff Stable_Less sort_key_stable)
  have id: "Stable Less (Stable Less ys) = Stable Less ys" for ys
    by (simp add: Stable_Less sort_key_id_if_sorted)
  have sl: "set (Stable Less ?g) = set ?g" "length (Stable Less ?g) = length ?g"
    by (simp_all add: Stable_Less)
  have le: "Less a b =
      (interfaceIP.Name a < interfaceIP.Name b
       \<or> (interfaceIP.Name a = interfaceIP.Name b
          \<and> (if length (interfaceIP.IP a) = 4
              then [0, 0, 0, 0, 0, 0, 0, 0, 0, 0, 0xff, 0xff] @ interfaceIP.IP a
              else if length (interfaceIP.IP a) = 16 then interfaceIP.IP a else [])
            < (if length (interfaceIP.IP b) = 4
               then [0, 0, 0, 0, 0, 0, 0, 0, 0, 0, 0xff, 0xff] @ interfaceIP.IP b
               else if length (interfaceIP.IP b) = 16 then interfaceIP.IP b else [])))"
    unfolding Less_explicit bytes16_explicit ..
  have s3: "sorted_wrt
        (\<lambda>a b. interfaceIP.Name a < interfaceIP.Name b
           \<or> (interfaceIP.Name a = interfaceIP.Name b
              \<and> (if length (interfaceIP.IP a) = 4
                  then [0, 0, 0, 0, 0, 0, 0, 0, 0, 0, 0xff, 0xff] @ interfaceIP.IP a
                  else if length (interfaceIP.IP a) = 16 then interfaceIP.IP a else [])
                \<le> (if length (interfaceIP.IP b) = 4
                   then [0, 0, 0, 0, 0, 0, 0, 0, 0, 0, 0xff, 0xff] @ interfaceIP.IP b
                   else if length (interfaceIP.IP b) = 16 then interfaceIP.IP b else [])))
        (Stable Less ?g)"
    using s1 unfolding not_Less_explicit bytes16_explicit .
  have g: "?g = gathered_addresses lib interfaces"
    by (simp add: interfacesLoop_eq)
  show ?thesis
    unfolding o
    by (intro conjI s1 s2 st sl id bytes16_explicit le s3 g)
qed

lemma Less_examples:
  "Less \<lparr>interfaceIP.Name = ''eth0'', IP = v4 10 0 0 6\<rparr> \<lparr>interfaceIP.Name = ''eth1'', IP = v4 10 0 0 5\<rparr>"
  "Less \<lparr>interfaceIP.Name = ''eth0'', IP = v4 10 0 0 5\<rparr> \<lparr>interfaceIP.Name = ''eth1'', IP = v4 10 0 0 5\<rparr>"
  "Less \<lparr>interfaceIP.Name = ''eth0'', IP = v4 10 0 0 5\<rparr> \<lparr>interfaceIP.Name = ''eth0'', IP = v4 10 0 0 6\<rparr>"
  "\<not> Less \<lparr>interfaceIP.Name = ''eth0'', IP = v4 10 0 0 6\<rparr> \<lparr>interfaceIP.Name = ''eth0'', IP = v4 10 0 0 5\<rparr>"
  by (simp_all add: Less_def To16_def IP_To16_def v4_def v4InV6Prefix_def)

theorem C5_sorted_and_stable_witness:
  "fst (getinterfaceIPs example_lib
     [\<lparr>Interface.Name = ''eth1'', Addrs = Inr [''10.0.0.5/24'']\<rparr>,
      \<lparr>Interface.Name = ''eth0'', Addrs = Inr [''10.0.0.6/24'', ''10.0.0.5/24'']\<rparr>]) =
     [\<lparr>interfaceIP.Name = ''eth0'', IP = v4 10 0 0 5\<rparr>,
      \<lparr>interfaceIP.Name = ''eth0'', IP = v4 10 0 0 6\<rparr>,
      \<lparr>interfaceIP.Name = ''eth1'', IP = v4 10 0 0 5\<rparr>]
   \<and> sorted_wrt (\<lambda>a b. \<not> Less b a)
     [\<lparr>interfaceIP.Name = ''eth0'', IP = v4 10 0 0 5\<rparr>,
      \<lparr>interfaceIP.Name = ''eth0'', IP = v4 10 0 0 6\<rparr>,
      \<lparr>interfaceIP.Name = ''eth1'', IP = v4 10 0 0 5\<rparr>]
   \<and> bytes16 \<lparr>interfaceIP.Name = ''eth0'', IP = [10, 0, 0, 5]\<rparr> =
       [0, 0, 0, 0, 0, 0, 0, 0, 0, 0, 0xff, 0xff, 10, 0, 0, 5]
   \<and> Less \<lparr>interfaceIP.Name = ''eth0'', IP = [10, 0, 0, 5]\<rparr>
       \<lparr>interfaceIP.Name = ''eth0'', IP = [0, 0, 0, 0, 0, 0, 0, 0, 0, 0, 0xff, 0xff, 10, 0, 0, 6]\<rparr>"
proof -
  have e: "fst (getinterfaceIPs example_lib
     [\<lparr>Interface.Name = ''eth1'', Addrs = Inr [''10.0.0.5/24'']\<rparr>,
      \<lparr>Interface.Name = ''eth0'', Addrs = Inr [''10.0.0.6/24'', ''10.0.0.5/24'']\<rparr>]) =
     [\<lparr>interfaceIP.Name = ''eth0'', IP = v4 10 0 0 5\<rparr>,
      \<lparr>interfaceIP.Name = ''eth0'', IP = v4 10 0 0 6\<rparr>,
      \<lparr>interfaceIP.Name = ''eth1'', IP = v4 10 0 0 5\<rparr>]"
    by (simp add: getinterfaceIPs_def Split_examples example_lib_def Stable_def Less_examples)
  note t = C5_sorted_and_stable [where lib = example_lib
      and interfaces = "[\<lparr>Interface.Name = ''eth1'', Addrs = Inr [''10.0.0.5/24'']\<rparr>,
        \<lparr>Interface.Name = ''eth0'', Addrs = Inr [''10.0.0.6/24'', ''10.0.0.5/24'']\<rparr>]"
      and a = "\<lparr>interfaceIP.Name = ''eth0'', IP = [10, 0, 0, 5]\<rparr>"
      and b = "\<lparr>interfaceIP.Name = ''eth0'',
        IP = [0, 0, 0, 0, 0, 0, 0, 0, 0, 0, 0xff, 0xff, 10, 0, 0, 6]\<rparr>"]
  from t have s: "sorted_wrt (\<lambda>a b. \<not> Less b a)
      [\<lparr>interfaceIP.Name = ''eth0'', IP = v4 10 0 0 5\<rparr>,
       \<lparr>interfaceIP.Name = ''eth0'', IP = v4 10 0 0 6\<rparr>,
       \<lparr>interfaceIP.Name = ''eth1'', IP = v4 10 0 0 5\<rparr>]"
    unfolding e by (rule conjunct1)
  from t have b16: "bytes16 \<lparr>interfaceIP.Name = ''eth0'', IP = [10, 0, 0, 5]\<rparr> =
       [0, 0, 0, 0, 0, 0, 0, 0, 0, 0, 0xff, 0xff, 10, 0, 0, 5]"
    by simp
  from t have "Less \<lparr>interfaceIP.Name = ''eth0'', IP = [10, 0, 0, 5]\<rparr>
       \<lparr>interfaceIP.Name = ''eth0'', IP = [0, 0, 0, 0, 0, 0, 0, 0, 0, 0, 0xff, 0xff, 10, 0, 0, 6]\<rparr>"
    by simp
  with e s b16 show ?thesis by simp
qed

section \<open>The errors of the enumeration\<close>

lemma IPString_v4_examples:
  "IPString lib \<lparr>interfaceIP.Name = n, IP = v4 10 0 0 5\<rparr> = ''10.0.0.5''"
  "IPString lib \<lparr>interfaceIP.Name = n, IP = v4 10 0 0 6\<rparr> = ''10.0.0.6''"
  "IPString lib \<lparr>interfaceIP.Name = n, IP = v4 192 168 5 5\<rparr> = ''192.168.5.5''"
  by (simp_all add: IPString_def To4_def IP_To4_def IP_String_def v4_def v4InV6Prefix_def
      isZeros_def uitoa.simps)

text \<open>
  Claim C6. After a successful parse, with \<open>(ips, err)\<close> what \<open>getinterfaceIPs\<close>
  returns: if there is an error and no address, \<open>GetIP\<close> returns that error and the
  empty string; in every other case it goes on to \<open>findIPWithSpecs\<close> with the
  addresses gathered. \<open>GetIP\<close> returns the enumeration error exactly in the first
  case. \<open>getinterfaceIPs\<close> itself always returns the sorted list of all the addresses
  it gathered, together with the accumulated error: none when no error was recorded,
  else one error made of every recorded message, in the order of recording, a newline
  apart.
\<close>

theorem C6_fatal_only_without_addresses:
  assumes "parseInterfaceSpecs lib (if length specList = 0 then [''eth0:inet''] else specList) =
      (specs, None)"
    and "getinterfaceIPs lib interfaces = (ips, err)"
  shows "(ips = [] \<and> err \<noteq> None \<longrightarrow> GetIP lib (Inr interfaces) specList = ([], err))
     \<and> (\<not> (ips = [] \<and> err \<noteq> None) \<longrightarrow>
          GetIP lib (Inr interfaces) specList = findIPWithSpecs lib specs ips)
     \<and> ((err \<noteq> None \<and> snd (GetIP lib (Inr interfaces) specList) = err) =
          (ips = [] \<and> err \<noteq> None))
     \<and> ips = Stable Less (fst (interfacesLoop lib interfaces ([], [])))
     \<and> (err \<noteq> None) = (snd (interfacesLoop lib interfaces ([], [])) \<noteq> [])
     \<and> ips = Stable Less (gathered_addresses lib interfaces)
     \<and> err =
         (if gathered_errors lib interfaces = [] then None
          else Some (ErrorString
            (Sprintf0 lib (Join (gathered_errors lib interfaces) [CHR 0x0A]))))"
proof -
  have a: "GetIP lib (Inr interfaces) specList = ([], err)" if "ips = []" "err \<noteq> None"
    using that assms by (simp add: GetIP_def)
  have b: "GetIP lib (Inr interfaces) specList = findIPWithSpecs lib specs ips"
    if "\<not> (ips = [] \<and> err \<noteq> None)"
    using that assms by (auto simp: GetIP_def)
  have c: "snd (GetIP lib (Inr interfaces) specList) \<noteq> err"
    if "\<not> (ips = [] \<and> err \<noteq> None)" "err \<noteq> None"
  proof -
    from getinterfaceIPs_err [of lib interfaces] assms(2) that(2)
    obtain m where "err = Some (ErrorString m)" by auto
    with findIPWithSpecs_err [of lib specs ips] b [OF that(1)] show ?thesis by auto
  qed
  have d: "ips = Stable Less (fst (interfacesLoop lib interfaces ([], [])))"
    "(err \<noteq> None) = (snd (interfacesLoop lib interfaces ([], [])) \<noteq> [])"
    using assms(2) by (auto simp: getinterfaceIPs_eq split: if_splits)
  have i: "(err \<noteq> None \<and> snd (GetIP lib (Inr interfaces) specList) = err) =
          (ips = [] \<and> err \<noteq> None)"
  proof (cases "ips = [] \<and> err \<noteq> None")
    case True
    then show ?thesis using a by simp
  next
    case False
    then show ?thesis using c by blast
  qed
  have e: "ips = Stable Less (gathered_addresses lib interfaces)"
    "err = (if gathered_errors lib interfaces = [] then None
          else Some (ErrorString
            (Sprintf0 lib (Join (gathered_errors lib interfaces) [CHR 0x0A]))))"
    using assms(2) by (simp_all add: getinterfaceIPs_gathered)
  from a b i d e show ?thesis by blast
qed

lemma Split_bogus: "Split ''bogus'' = [''bogus'']"
  by (simp add: Split_def)

theorem C6_fatal_only_without_addresses_witness:
  "GetIP example_lib
     (Inr [\<lparr>Interface.Name = ''eth0'', Addrs = Inr [''10.0.0.5/24 bogus'']\<rparr>,
           \<lparr>Interface.Name = ''eth1'', Addrs = Inl (ErrorString ''no such device'')\<rparr>])
     [''eth0''] = (''10.0.0.5'', None)
   \<and> getinterfaceIPs example_lib
       [\<lparr>Interface.Name = ''eth0'', Addrs = Inr [''10.0.0.5/24 bogus'']\<rparr>,
        \<lparr>Interface.Name = ''eth1'', Addrs = Inl (ErrorString ''no such device'')\<rparr>] =
     ([\<lparr>interfaceIP.Name = ''eth0'', IP = v4 10 0 0 5\<rparr>],
      Some (ErrorString (''invalid CIDR address: bogus'' @ [CHR 0x0A] @ ''no such device'')))
   \<and> GetIP example_lib
     (Inr [\<lparr>Interface.Name = ''eth0'', Addrs = Inl (ErrorString ''no such device'')\<rparr>,
           \<lparr>Interface.Name = ''eth1'', Addrs = Inr [''bogus'']\<rparr>])
     [''eth0''] =
     ([], Some (ErrorString (''no such device'' @ [CHR 0x0A] @ ''invalid CIDR address: bogus'')))"
proof -
  let ?i1 = "[\<lparr>Interface.Name = ''eth0'', Addrs = Inr [''10.0.0.5/24 bogus'']\<rparr>,
        \<lparr>Interface.Name = ''eth1'', Addrs = Inl (ErrorString ''no such device'')\<rparr>]"
  let ?i2 = "[\<lparr>Interface.Name = ''eth0'', Addrs = Inl (ErrorString ''no such device'')\<rparr>,
        \<lparr>Interface.Name = ''eth1'', Addrs = Inr [''bogus'']\<rparr>]"
  have p: "parseInterfaceSpecs example_lib (if length [''eth0''] = 0 then [''eth0:inet''] else [''eth0'']) =
      ([\<lparr>Spec = ''eth0'', IPv6 = False, Name = ''eth0'', Network = None, Index = 0,
         HasIndex = False\<rparr>], None)"
    by (simp add: parseInterfaceSpecs_def parse_eth0)
  have c: "ParseCIDR example_lib ''bogus'' = Inl (ErrorString ''invalid CIDR address: bogus'')"
    "ParseCIDR example_lib ''10.0.0.5/24'' =
      Inr (v4 10 0 0 5, \<lparr>IPNet.IP = [10, 0, 0, 0], Mask = [255, 255, 255, 0]\<rparr>)"
    by (simp_all add: example_lib_def)
  have ga: "gathered_addresses example_lib ?i1 = [\<lparr>interfaceIP.Name = ''eth0'', IP = v4 10 0 0 5\<rparr>]"
    "gathered_addresses example_lib ?i2 = []"
    by (simp_all add: gathered_addresses_def addresses_of_text_def Split_examples Split_bogus c
        map_filter_simps)
  have ge: "gathered_errors example_lib ?i1 = [''invalid CIDR address: bogus'', ''no such device'']"
    "gathered_errors example_lib ?i2 = [''no such device'', ''invalid CIDR address: bogus'']"
    by (simp_all add: gathered_errors_def errors_of_text_def Split_examples Split_bogus c
        map_filter_simps)
  have sp: "Sprintf0 example_lib (''invalid CIDR address: bogus'' @ [CHR 0x0A] @ ''no such device'') =
      ''invalid CIDR address: bogus'' @ [CHR 0x0A] @ ''no such device''"
    "Sprintf0 example_lib (''no such device'' @ [CHR 0x0A] @ ''invalid CIDR address: bogus'') =
      ''no such device'' @ [CHR 0x0A] @ ''invalid CIDR address: bogus''"
    by (simp_all add: example_lib_def)
  obtain ips1 err1 where g1: "getinterfaceIPs example_lib ?i1 = (ips1, err1)"
    by (cases "getinterfaceIPs example_lib ?i1")
  obtain ips2 err2 where g2: "getinterfaceIPs example_lib ?i2 = (ips2, err2)"
    by (cases "getinterfaceIPs example_lib ?i2")
  note t1 = C6_fatal_only_without_addresses [OF p g1]
  note t2 = C6_fatal_only_without_addresses [OF p g2]
  note fg1 = t1 [THEN conjunct2, THEN conjunct2, THEN conjunct2, THEN conjunct2, THEN conjunct2]
  note fg2 = t2 [THEN conjunct2, THEN conjunct2, THEN conjunct2, THEN conjunct2, THEN conjunct2]
  from fg1 have v1: "ips1 = [\<lparr>interfaceIP.Name = ''eth0'', IP = v4 10 0 0 5\<rparr>]"
    "err1 = Some (ErrorString (''invalid CIDR address: bogus'' @ [CHR 0x0A] @ ''no such device''))"
    using sp by (simp_all add: ga ge Stable_def)
  from fg2 have v2: "ips2 = []"
    "err2 = Some (ErrorString (''no such device'' @ [CHR 0x0A] @ ''invalid CIDR address: bogus''))"
    using sp by (simp_all add: ga ge Stable_def)
  have m: "Match \<lparr>Spec = ''eth0'', IPv6 = False, Name = ''eth0'', Network = None, Index = 0,
         HasIndex = False\<rparr> 0 \<lparr>interfaceIP.Name = ''eth0'', IP = v4 10 0 0 5\<rparr>"
    by (simp add: Match_def IsIPv4_v4)
  have f: "findIPWithSpecs example_lib [\<lparr>Spec = ''eth0'', IPv6 = False, Name = ''eth0'', Network = None,
       Index = 0, HasIndex = False\<rparr>] [\<lparr>interfaceIP.Name = ''eth0'', IP = v4 10 0 0 5\<rparr>] =
      (''10.0.0.5'', None)"
    by (simp add: findIPWithSpecs_def m IPString_v4_examples)
  from t1 [THEN conjunct2, THEN conjunct1] v1 f
  have r1: "GetIP example_lib (Inr ?i1) [''eth0''] = (''10.0.0.5'', None)"
    by simp
  from t2 [THEN conjunct1] v2 have r2: "GetIP example_lib (Inr ?i2) [''eth0''] =
      ([], Some (ErrorString (''no such device'' @ [CHR 0x0A] @ ''invalid CIDR address: bogus'')))"
    by simp
  from r1 r2 g1 v1 show ?thesis by simp
qed

section \<open>The scan of the selector\<close>

lemma digits_value_nonneg:
  assumes "list_all isDigit ds"
  shows "0 \<le> digits_value ds"
proof -
  have d: "0 \<le> (of_char c :: int) - 48" if "isDigit c" for c
  proof -
    from that have "48 \<le> int (of_char c)" by (simp add: isDigit_def)
    then show ?thesis by (simp add: of_nat_of_char)
  qed
  have "0 \<le> n \<Longrightarrow> list_all isDigit ds \<Longrightarrow>
      0 \<le> foldl (\<lambda>n c. 10 * n + (of_char c - 48)) n ds" for n :: int
  proof (induction ds arbitrary: n)
    case Nil
    then show ?case by simp
  next
    case (Cons c cs)
    from Cons.prems have "0 \<le> 10 * n + (of_char c - 48)" using d [of c] by simp
    with Cons show ?case by simp
  qed
  from this [of 0] assms show ?thesis by (simp add: digits_value_def)
qed

lemma Name_le_if_not_Less:
  "\<not> Less b a \<Longrightarrow> interfaceIP.Name a \<le> interfaceIP.Name b"
  by (auto simp: Less_sortKey sortKey_def less_prod_def)

lemma sorted_names:
  assumes "sorted_wrt (\<lambda>a b. \<not> Less b a) ips"
  shows "sorted ([] # map interfaceIP.Name ips)"
proof -
  from assms have "sorted_wrt (\<lambda>a b. interfaceIP.Name a \<le> interfaceIP.Name b) ips"
    by (rule sorted_wrt_mono_rel [rotated]) (simp add: Name_le_if_not_Less)
  then show ?thesis by (simp add: sorted_map)
qed

lemma counters_nth:
  assumes "sorted (f # map interfaceIP.Name ips)" and "k < length ips"
  shows "counters c f ips ! k =
     (if interfaceIP.Name (ips ! k) = f
      then c + 1 + int (length (filter (\<lambda>a. interfaceIP.Name a = f) (take k ips)))
      else int (length (filter (\<lambda>a. interfaceIP.Name a = interfaceIP.Name (ips ! k)) (take k ips))))"
  using assms
proof (induction ips arbitrary: c f k)
  case Nil
  then show ?case by simp
next
  case (Cons a rest)
  show ?case
  proof (cases k)
    case 0
    then show ?thesis by (simp add: Let_def)
  next
    case (Suc j)
    with Cons.prems have j: "j < length rest" by simp
    from Cons.prems(1) have s: "sorted (interfaceIP.Name a # map interfaceIP.Name rest)"
      and fa: "f \<le> interfaceIP.Name a" by simp_all
    from s j have aj: "interfaceIP.Name a \<le> interfaceIP.Name (rest ! j)" by simp
    note ih = Cons.IH [OF s j, of "if f \<noteq> interfaceIP.Name a then 0 else c + 1"]
    show ?thesis
    proof (cases "interfaceIP.Name (rest ! j) = f")
      case True
      with fa aj have "interfaceIP.Name a = f" by simp
      with True ih Suc show ?thesis by (simp add: Let_def)
    next
      case False
      with ih Suc show ?thesis by (auto simp: Let_def)
    qed
  qed
qed

lemma scan_indexed:
  assumes M: "\<And>k iip. Match spec k iip = (interfaceIP.Name iip = n \<and> k = i)"
    and "sorted (f # map interfaceIP.Name ips)"
  shows "scan spec c f ips =
     (let grp = filter (\<lambda>a. interfaceIP.Name a = n) ips;
          d = i - (if f = n then c + 1 else 0)
      in if 0 \<le> d \<and> nat d < length grp then Some (grp ! nat d) else None)"
  using assms(2)
proof (induction ips arbitrary: c f)
  case Nil
  then show ?case by simp
next
  case (Cons a rest)
  define st where "st = (if f = n then c + 1 else 0)"
  define grp where "grp = filter (\<lambda>a. interfaceIP.Name a = n) rest"
  from Cons.prems have s: "sorted (interfaceIP.Name a # map interfaceIP.Name rest)"
    and fa: "f \<le> interfaceIP.Name a" by simp_all
  note ih = Cons.IH [OF s, of "if f \<noteq> interfaceIP.Name a then 0 else c + 1"]
  show ?case
  proof (cases "interfaceIP.Name a = n")
    case True
    then have c': "(if f \<noteq> interfaceIP.Name a then 0 else c + 1) = st"
      by (simp add: st_def)
    from True have g: "filter (\<lambda>a. interfaceIP.Name a = n) (a # rest) = a # grp"
      by (simp add: grp_def)
    show ?thesis
    proof (cases "i = st")
      case z: True
      with True c' have "scan spec c f (a # rest) = Some a" by (simp add: Let_def M)
      with z show ?thesis unfolding g Let_def st_def [symmetric] by simp
    next
      case nz: False
      with True c' have step: "scan spec c f (a # rest) = scan spec st n rest"
        by (auto simp: Let_def M)
      from ih True c' have ih': "scan spec st n rest =
          (if 0 \<le> i - (st + 1) \<and> nat (i - (st + 1)) < length grp
           then Some (grp ! nat (i - (st + 1))) else None)"
        by (simp add: Let_def grp_def)
      show ?thesis
      proof (cases "1 \<le> i - st")
        case ge: True
        then have n1: "nat (i - st) = Suc (nat (i - (st + 1)))" by simp
        from ge have "0 \<le> i - (st + 1)" "0 \<le> i - st" by simp_all
        then show ?thesis
          unfolding g Let_def st_def [symmetric] step ih' n1 by simp
      next
        case lt: False
        with nz have "\<not> 0 \<le> i - (st + 1)" "\<not> 0 \<le> i - st" by simp_all
        then show ?thesis
          unfolding g Let_def st_def [symmetric] step ih' by simp
      qed
    qed
  next
    case False
    then have g: "filter (\<lambda>a. interfaceIP.Name a = n) (a # rest) = grp"
      by (simp add: grp_def)
    from False have step: "scan spec c f (a # rest) =
        scan spec (if f \<noteq> interfaceIP.Name a then 0 else c + 1) (interfaceIP.Name a) rest"
      by (simp add: Let_def M)
    from ih False have ih': "scan spec (if f \<noteq> interfaceIP.Name a then 0 else c + 1)
          (interfaceIP.Name a) rest =
        (if 0 \<le> i \<and> nat i < length grp then Some (grp ! nat i) else None)"
      by (simp add: Let_def grp_def)
    show ?thesis
    proof (cases "f = n")
      case fn: True
      have "grp = []"
      proof -
        have "n < interfaceIP.Name b" if "b \<in> set rest" for b
        proof -
          from s that have "interfaceIP.Name a \<le> interfaceIP.Name b" by auto
          with fa fn False show ?thesis by auto
        qed
        then show ?thesis by (auto simp: grp_def filter_empty_conv)
      qed
      then show ?thesis unfolding g Let_def step ih' by simp
    next
      case fnn: False
      then show ?thesis unfolding g Let_def step ih' by simp
    qed
  qed
qed

lemma findIPWithSpecs_single:
  "findIPWithSpecs lib [spec] ips =
     (case scan spec 0 [] ips of
        Some iip \<Rightarrow> (IPString lib iip, None)
      | None \<Rightarrow> ([], Some (NoMatchError [spec] ips)))"
  by (simp add: findIPWithSpecs_def split: option.splits)

lemma positional_index_sorted:
  assumes "sorted_wrt (\<lambda>a b. \<not> Less b a) ips"
  shows "(\<forall>k<length ips. interfaceIP.Name (ips ! k) \<noteq> [] \<longrightarrow>
        counters 0 [] ips ! k =
          int (length (filter (\<lambda>a. interfaceIP.Name a = interfaceIP.Name (ips ! k)) (take k ips))))
     \<and> (name \<noteq> [] \<and> list_all isWord name \<and> ds \<noteq> [] \<and> list_all isDigit ds
          \<and> digits_value ds < 2 ^ 63 \<longrightarrow>
        findIPWithSpecs lib [fst (parseInterfaceSpec lib (name @ ''['' @ ds @ '']''))] ips =
          (if nat (digits_value ds) < length (filter (\<lambda>a. interfaceIP.Name a = name) ips)
           then (IPString lib
                   (filter (\<lambda>a. interfaceIP.Name a = name) ips ! nat (digits_value ds)), None)
           else ([], Some (NoMatchError
                   [fst (parseInterfaceSpec lib (name @ ''['' @ ds @ '']''))] ips))))"
proof (intro conjI allI impI)
  fix k
  assume "k < length ips" and "interfaceIP.Name (ips ! k) \<noteq> []"
  with counters_nth [OF sorted_names [OF assms], of k 0]
  show "counters 0 [] ips ! k =
      int (length (filter (\<lambda>a. interfaceIP.Name a = interfaceIP.Name (ips ! k)) (take k ips)))"
    by simp
next
  assume a: "name \<noteq> [] \<and> list_all isWord name \<and> ds \<noteq> [] \<and> list_all isDigit ds
      \<and> digits_value ds < 2 ^ 63"
  let ?spec = "fst (parseInterfaceSpec lib (name @ ''['' @ ds @ '']''))"
  from a have p: "parseInterfaceSpec lib (name @ CHR ''['' # ds @ '']'') =
      (\<lparr>Spec = name @ CHR ''['' # ds @ '']'', IPv6 = False, Name = name, Network = None,
        Index = digits_value ds, HasIndex = True\<rparr>, None)"
    by (simp add: parse_index)
  from a have "name \<noteq> ''*''" by (simp add: all_word_not_star)
  then have M: "Match ?spec k iip = (interfaceIP.Name iip = name \<and> k = digits_value ds)" for k iip
    by (simp add: p Match_named_index)
  from a have nn: "0 \<le> digits_value ds" by (simp add: digits_value_nonneg)
  from a have "[] \<noteq> name" by auto
  with scan_indexed [of ?spec name "digits_value ds" "[]" ips 0, OF M sorted_names [OF assms]] nn
  have "scan ?spec 0 [] ips =
      (if nat (digits_value ds) < length (filter (\<lambda>a. interfaceIP.Name a = name) ips)
       then Some (filter (\<lambda>a. interfaceIP.Name a = name) ips ! nat (digits_value ds)) else None)"
    by (simp add: Let_def)
  then show "findIPWithSpecs lib [?spec] ips =
      (if nat (digits_value ds) < length (filter (\<lambda>a. interfaceIP.Name a = name) ips)
       then (IPString lib
               (filter (\<lambda>a. interfaceIP.Name a = name) ips ! nat (digits_value ds)), None)
       else ([], Some (NoMatchError [?spec] ips)))"
    by (simp add: findIPWithSpecs_single)
qed

lemma counters_first:
  "ips \<noteq> [] \<Longrightarrow>
   counters c f ips ! 0 = (if f \<noteq> interfaceIP.Name (ips ! 0) then 0 else c + 1)"
  by (cases ips) (simp_all add: Let_def)

lemma counters_step:
  "Suc k < length ips \<Longrightarrow>
   counters c f ips ! Suc k =
     (if interfaceIP.Name (ips ! k) \<noteq> interfaceIP.Name (ips ! Suc k) then 0
      else counters c f ips ! k + 1)"
proof (induction ips arbitrary: c f k)
  case Nil
  then show ?case by simp
next
  case (Cons a rest)
  show ?case
  proof (cases k)
    case 0
    with Cons.prems obtain b r where "rest = b # r" by (cases rest) auto
    with 0 show ?thesis by (simp add: Let_def)
  next
    case (Suc m)
    with Cons.prems have "Suc m < length rest" by simp
    from Cons.IH [OF this] Suc show ?thesis by (simp add: Let_def)
  qed
qed

lemma sorted_getinterfaceIPs:
  "sorted_wrt (\<lambda>a b. \<not> Less b a) (fst (getinterfaceIPs lib interfaces))"
  by (simp add: getinterfaceIPs_eq sorted_Stable_Less)

text \<open>
  Claim C4. On the list that \<open>getinterfaceIPs\<close> builds from interfaces with names,
  the counter that an address is matched with is the number of earlier addresses of the
  same interface: it is 0 at the first address of the list and wherever the interface
  name differs from that of the address before, and one more than the counter before
  wherever the name is the same. So a rule \<open>name[i]\<close> alone selects the address number
  \<open>i\<close>, counted from 0, among the addresses of that interface in the order of the
  list, and matches nothing when the interface has no such address. The same holds on
  every sorted list, for the addresses whose interface name is not empty.
\<close>

theorem C4_positional_index:
  "((\<forall>intf\<in>set interfaces. Interface.Name intf \<noteq> [])
      \<and> ips = fst (getinterfaceIPs lib interfaces) \<longrightarrow>
      (\<forall>k<length ips. counters 0 [] ips ! k =
          int (length (filter (\<lambda>a. interfaceIP.Name a = interfaceIP.Name (ips ! k)) (take k ips))))
      \<and> (\<forall>k<length ips.
            (k = 0 \<or> interfaceIP.Name (ips ! (k - 1)) \<noteq> interfaceIP.Name (ips ! k)) \<longrightarrow>
            counters 0 [] ips ! k = 0)
      \<and> (\<forall>k. Suc k < length ips \<and> interfaceIP.Name (ips ! Suc k) = interfaceIP.Name (ips ! k) \<longrightarrow>
            counters 0 [] ips ! Suc k = counters 0 [] ips ! k + 1)
      \<and> (name \<noteq> [] \<and> list_all isWord name \<and> ds \<noteq> [] \<and> list_all isDigit ds
            \<and> digits_value ds < 2 ^ 63 \<longrightarrow>
          findIPWithSpecs lib [fst (parseInterfaceSpec lib (name @ ''['' @ ds @ '']''))] ips =
            (if nat (digits_value ds) < length (filter (\<lambda>a. interfaceIP.Name a = name) ips)
             then (IPString lib
                     (filter (\<lambda>a. interfaceIP.Name a = name) ips ! nat (digits_value ds)), None)
             else ([], Some (NoMatchError
                     [fst (parseInterfaceSpec lib (name @ ''['' @ ds @ '']''))] ips)))))
   \<and> (sorted_wrt (\<lambda>a b. \<not> Less b a) ips \<longrightarrow>
      (\<forall>k<length ips. interfaceIP.Name (ips ! k) \<noteq> [] \<longrightarrow>
          counters 0 [] ips ! k =
            int (length (filter (\<lambda>a. interfaceIP.Name a = interfaceIP.Name (ips ! k)) (take k ips))))
      \<and> (name \<noteq> [] \<and> list_all isWord name \<and> ds \<noteq> [] \<and> list_all isDigit ds
            \<and> digits_value ds < 2 ^ 63 \<longrightarrow>
          findIPWithSpecs lib [fst (parseInterfaceSpec lib (name @ ''['' @ ds @ '']''))] ips =
            (if nat (digits_value ds) < length (filter (\<lambda>a. interfaceIP.Name a = name) ips)
             then (IPString lib
                     (filter (\<lambda>a. interfaceIP.Name a = name) ips ! nat (digits_value ds)), None)
             else ([], Some (NoMatchError
                     [fst (parseInterfaceSpec lib (name @ ''['' @ ds @ '']''))] ips)))))"
proof (intro conjI impI)
  assume s: "sorted_wrt (\<lambda>a b. \<not> Less b a) ips"
  from positional_index_sorted [OF s, of name ds lib]
  show "\<forall>k<length ips. interfaceIP.Name (ips ! k) \<noteq> [] \<longrightarrow>
      counters 0 [] ips ! k =
        int (length (filter (\<lambda>a. interfaceIP.Name a = interfaceIP.Name (ips ! k)) (take k ips)))"
    by (rule conjunct1)
next
  assume s: "sorted_wrt (\<lambda>a b. \<not> Less b a) ips"
    and h: "name \<noteq> [] \<and> list_all isWord name \<and> ds \<noteq> [] \<and> list_all isDigit ds
            \<and> digits_value ds < 2 ^ 63"
  from positional_index_sorted [OF s, of name ds lib, THEN conjunct2, THEN mp, OF h]
  show "findIPWithSpecs lib [fst (parseInterfaceSpec lib (name @ ''['' @ ds @ '']''))] ips =
            (if nat (digits_value ds) < length (filter (\<lambda>a. interfaceIP.Name a = name) ips)
             then (IPString lib
                     (filter (\<lambda>a. interfaceIP.Name a = name) ips ! nat (digits_value ds)), None)
             else ([], Some (NoMatchError
                     [fst (parseInterfaceSpec lib (name @ ''['' @ ds @ '']''))] ips)))" .
next
  assume a: "(\<forall>intf\<in>set interfaces. Interface.Name intf \<noteq> [])
      \<and> ips = fst (getinterfaceIPs lib interfaces)"
  then have s: "sorted_wrt (\<lambda>a b. \<not> Less b a) ips" by (simp add: sorted_getinterfaceIPs)
  from a have n: "interfaceIP.Name (ips ! k) \<noteq> []" if "k < length ips" for k
    using that getinterfaceIPs_names [of interfaces "ips ! k" lib] by simp
  from positional_index_sorted [OF s, of name ds lib, THEN conjunct1] n
  show "\<forall>k<length ips. counters 0 [] ips ! k =
      int (length (filter (\<lambda>a. interfaceIP.Name a = interfaceIP.Name (ips ! k)) (take k ips)))"
    by blast
next
  assume a: "(\<forall>intf\<in>set interfaces. Interface.Name intf \<noteq> [])
      \<and> ips = fst (getinterfaceIPs lib interfaces)"
  from a have n: "interfaceIP.Name (ips ! k) \<noteq> []" if "k < length ips" for k
    using that getinterfaceIPs_names [of interfaces "ips ! k" lib] by simp
  show "\<forall>k<length ips.
      (k = 0 \<or> interfaceIP.Name (ips ! (k - 1)) \<noteq> interfaceIP.Name (ips ! k)) \<longrightarrow>
      counters 0 [] ips ! k = 0"
  proof (intro allI impI)
    fix k
    assume k: "k < length ips"
      and c: "k = 0 \<or> interfaceIP.Name (ips ! (k - 1)) \<noteq> interfaceIP.Name (ips ! k)"
    show "counters 0 [] ips ! k = 0"
    proof (cases k)
      case 0
      from k have "ips \<noteq> []" by auto
      from counters_first [OF this, of 0 "[]"] n [OF k] 0 show ?thesis by auto
    next
      case (Suc m)
      with k c counters_step [of m ips 0 "[]"] show ?thesis by simp
    qed
  qed
next
  assume a: "(\<forall>intf\<in>set interfaces. Interface.Name intf \<noteq> [])
      \<and> ips = fst (getinterfaceIPs lib interfaces)"
  show "\<forall>k. Suc k < length ips \<and> interfaceIP.Name (ips ! Suc k) = interfaceIP.Name (ips ! k) \<longrightarrow>
      counters 0 [] ips ! Suc k = counters 0 [] ips ! k + 1"
    by (simp add: counters_step)
next
  assume a: "(\<forall>intf\<in>set interfaces. Interface.Name intf \<noteq> [])
      \<and> ips = fst (getinterfaceIPs lib interfaces)"
    and h: "name \<noteq> [] \<and> list_all isWord name \<and> ds \<noteq> [] \<and> list_all isDigit ds
            \<and> digits_value ds < 2 ^ 63"
  from a have s: "sorted_wrt (\<lambda>a b. \<not> Less b a) ips" by (simp add: sorted_getinterfaceIPs)
  from positional_index_sorted [OF s, of name ds lib, THEN conjunct2, THEN mp, OF h]
  show "findIPWithSpecs lib [fst (parseInterfaceSpec lib (name @ ''['' @ ds @ '']''))] ips =
            (if nat (digits_value ds) < length (filter (\<lambda>a. interfaceIP.Name a = name) ips)
             then (IPString lib
                     (filter (\<lambda>a. interfaceIP.Name a = name) ips ! nat (digits_value ds)), None)
             else ([], Some (NoMatchError
                     [fst (parseInterfaceSpec lib (name @ ''['' @ ds @ '']''))] ips)))" .
qed

lemma parse_eth0_1:
  "parseInterfaceSpec lib ''eth0[1]'' =
     (\<lparr>Spec = ''eth0[1]'', IPv6 = False, Name = ''eth0'', Network = None, Index = 1,
       HasIndex = True\<rparr>, None)"
proof -
  have "parseInterfaceSpec lib (''eth0'' @ CHR ''['' # ''1'' @ '']'') =
      (\<lparr>Spec = ''eth0'' @ CHR ''['' # ''1'' @ '']'', IPv6 = False, Name = ''eth0'', Network = None,
        Index = digits_value ''1'', HasIndex = True\<rparr>, None)"
    by (rule parse_index) (simp_all add: isWord_def isDigit_def digits_value_def)
  then show ?thesis by (simp add: digits_value_def)
qed

theorem C4_positional_index_witness:
  "fst (getinterfaceIPs example_lib
     [\<lparr>Interface.Name = ''eth0'', Addrs = Inr [''10.0.0.6/24'', ''10.0.0.5/24'']\<rparr>]) =
     [\<lparr>interfaceIP.Name = ''eth0'', IP = v4 10 0 0 5\<rparr>,
      \<lparr>interfaceIP.Name = ''eth0'', IP = v4 10 0 0 6\<rparr>]
   \<and> counters 0 []
     [\<lparr>interfaceIP.Name = ''eth0'', IP = v4 10 0 0 5\<rparr>,
      \<lparr>interfaceIP.Name = ''eth0'', IP = v4 10 0 0 6\<rparr>] = [0, 1]
   \<and> findIPWithSpecs example_lib [fst (parseInterfaceSpec example_lib ''eth0[1]'')]
     [\<lparr>interfaceIP.Name = ''eth0'', IP = v4 10 0 0 5\<rparr>,
      \<lparr>interfaceIP.Name = ''eth0'', IP = v4 10 0 0 6\<rparr>] = (''10.0.0.6'', None)
   \<and> GetIP example_lib
     (Inr [\<lparr>Interface.Name = ''eth0'', Addrs = Inr [''10.0.0.6/24'', ''10.0.0.5/24'']\<rparr>])
     [''eth0[1]''] = (''10.0.0.6'', None)"
proof -
  let ?ifs = "[\<lparr>Interface.Name = ''eth0'', Addrs = Inr [''10.0.0.6/24'', ''10.0.0.5/24'']\<rparr>]"
  let ?ips = "[\<lparr>interfaceIP.Name = ''eth0'', IP = v4 10 0 0 5\<rparr>,
      \<lparr>interfaceIP.Name = ''eth0'', IP = v4 10 0 0 6\<rparr>]"
  have e: "getinterfaceIPs example_lib ?ifs = (?ips, None)"
    by (simp add: getinterfaceIPs_def Split_examples example_lib_def Stable_def Less_examples)
  have a: "(\<forall>intf\<in>set ?ifs. Interface.Name intf \<noteq> [])
      \<and> ?ips = fst (getinterfaceIPs example_lib ?ifs)"
    by (simp add: e)
  have h: "''eth0'' \<noteq> [] \<and> list_all isWord ''eth0'' \<and> ''1'' \<noteq> [] \<and> list_all isDigit ''1''
      \<and> digits_value ''1'' < 2 ^ 63"
    by (simp add: isWord_def isDigit_def digits_value_def)
  have v: "digits_value ''1'' = 1" by (simp add: digits_value_def)
  note t = C4_positional_index [where interfaces = ?ifs and ips = ?ips and lib = example_lib
      and name = "''eth0''" and ds = "''1''", THEN conjunct1, THEN mp, OF a]
  from t [THEN conjunct2, THEN conjunct2, THEN conjunct2, THEN mp, OF h]
  have f: "findIPWithSpecs example_lib [fst (parseInterfaceSpec example_lib ''eth0[1]'')] ?ips =
      (''10.0.0.6'', None)"
    by (simp add: v IPString_v4_examples)
  from t [THEN conjunct1] have "counters 0 [] ?ips ! 0 = 0" "counters 0 [] ?ips ! 1 = 1"
    by simp_all
  then have c: "counters 0 [] ?ips = [0, 1]" by simp
  have p: "parseInterfaceSpecs example_lib [''eth0[1]''] =
      ([fst (parseInterfaceSpec example_lib ''eth0[1]'')], None)"
    by (simp add: parseInterfaceSpecs_def parse_eth0_1)
  have g: "GetIP example_lib (Inr ?ifs) [''eth0[1]''] = (''10.0.0.6'', None)"
    by (simp add: GetIP_def p e f)
  from e c f g show ?thesis by simp
qed

lemma counters_Cons:
  "counters c f (a # rest) =
     (if f \<noteq> interfaceIP.Name a then 0 else c + 1) #
     counters (if f \<noteq> interfaceIP.Name a then 0 else c + 1) (interfaceIP.Name a) rest"
  by (simp add: Let_def)

lemma scan_Cons:
  "scan spec c f (a # rest) =
     (if Match spec (if f \<noteq> interfaceIP.Name a then 0 else c + 1) a then Some a
      else scan spec (if f \<noteq> interfaceIP.Name a then 0 else c + 1) (interfaceIP.Name a) rest)"
  by (simp add: Let_def)

lemma scan_first:
  assumes "j < length ips"
    and "Match spec (counters c f ips ! j) (ips ! j)"
    and "\<forall>j'<j. \<not> Match spec (counters c f ips ! j') (ips ! j')"
  shows "scan spec c f ips = Some (ips ! j)"
  using assms
proof (induction ips arbitrary: c f j)
  case Nil
  then show ?case by simp
next
  case (Cons a rest)
  define c' where "c' = (if f \<noteq> interfaceIP.Name a then 0 else c + 1)"
  have cs: "counters c f (a # rest) = c' # counters c' (interfaceIP.Name a) rest"
    unfolding c'_def by (rule counters_Cons)
  have sc: "scan spec c f (a # rest) =
      (if Match spec c' a then Some a else scan spec c' (interfaceIP.Name a) rest)"
    unfolding c'_def by (rule scan_Cons)
  show ?case
  proof (cases j)
    case 0
    with Cons.prems(2) show ?thesis unfolding sc cs by simp
  next
    case (Suc m)
    from Cons.prems(3) Suc have "\<not> Match spec (counters c f (a # rest) ! 0) ((a # rest) ! 0)"
      by blast
    then have n0: "\<not> Match spec c' a" unfolding cs by simp
    have "scan spec c' (interfaceIP.Name a) rest = Some (rest ! m)"
    proof (rule Cons.IH)
      from Cons.prems(1) Suc show "m < length rest" by simp
      from Cons.prems(2) Suc
      show "Match spec (counters c' (interfaceIP.Name a) rest ! m) (rest ! m)"
        unfolding cs by simp
      show "\<forall>j'<m. \<not> Match spec (counters c' (interfaceIP.Name a) rest ! j') (rest ! j')"
      proof (intro allI impI)
        fix j'
        assume "j' < m"
        with Suc have "Suc j' < j" by simp
        with Cons.prems(3)
        have "\<not> Match spec (counters c f (a # rest) ! Suc j') ((a # rest) ! Suc j')"
          by blast
        then show "\<not> Match spec (counters c' (interfaceIP.Name a) rest ! j') (rest ! j')"
          unfolding cs by simp
      qed
    qed
    with n0 Suc show ?thesis unfolding sc by simp
  qed
qed

lemma scan_none:
  assumes "\<forall>j<length ips. \<not> Match spec (counters c f ips ! j) (ips ! j)"
  shows "scan spec c f ips = None"
  using assms
proof (induction ips arbitrary: c f)
  case Nil
  then show ?case by simp
next
  case (Cons a rest)
  define c' where "c' = (if f \<noteq> interfaceIP.Name a then 0 else c + 1)"
  have cs: "counters c f (a # rest) = c' # counters c' (interfaceIP.Name a) rest"
    unfolding c'_def by (rule counters_Cons)
  have sc: "scan spec c f (a # rest) =
      (if Match spec c' a then Some a else scan spec c' (interfaceIP.Name a) rest)"
    unfolding c'_def by (rule scan_Cons)
  have "0 < length (a # rest)" by simp
  with Cons.prems have "\<not> Match spec (counters c f (a # rest) ! 0) ((a # rest) ! 0)"
    by blast
  then have n0: "\<not> Match spec c' a" unfolding cs by simp
  have "scan spec c' (interfaceIP.Name a) rest = None"
  proof (rule Cons.IH, intro allI impI)
    fix j
    assume "j < length rest"
    then have "Suc j < length (a # rest)" by simp
    with Cons.prems
    have "\<not> Match spec (counters c f (a # rest) ! Suc j) ((a # rest) ! Suc j)"
      by blast
    then show "\<not> Match spec (counters c' (interfaceIP.Name a) rest ! j) (rest ! j)"
      unfolding cs by simp
  qed
  with n0 show ?case unfolding sc by simp
qed

lemma firstMatch_first:
  assumes "k < length specs" and "scan (specs ! k) 0 [] ips = Some x"
    and "\<forall>k'<k. scan (specs ! k') 0 [] ips = None"
  shows "firstMatch specs ips = Some x"
  using assms
proof (induction specs arbitrary: k)
  case Nil
  then show ?case by simp
next
  case (Cons sp rest)
  show ?case
  proof (cases k)
    case 0
    with Cons.prems show ?thesis by simp
  next
    case (Suc m)
    with Cons.prems(3) have n: "scan sp 0 [] ips = None" by (auto dest: spec [of _ 0])
    have "firstMatch rest ips = Some x"
    proof (rule Cons.IH [of m])
      from Cons.prems(1) Suc show "m < length rest" by simp
      from Cons.prems(2) Suc show "scan (rest ! m) 0 [] ips = Some x" by simp
      from Cons.prems(3) Suc show "\<forall>k'<m. scan (rest ! k') 0 [] ips = None"
        by (auto dest: spec [of _ "Suc k'" for k'])
    qed
    with n show ?thesis by simp
  qed
qed

lemma firstMatch_none:
  assumes "\<forall>k<length specs. scan (specs ! k) 0 [] ips = None"
  shows "firstMatch specs ips = None"
  using assms
proof (induction specs)
  case Nil
  then show ?case by simp
next
  case (Cons sp rest)
  from Cons.prems have n: "scan sp 0 [] ips = None" by (auto dest: spec [of _ 0])
  from Cons.prems have "\<forall>k<length rest. scan (rest ! k) 0 [] ips = None"
    by (auto dest: spec [of _ "Suc k" for k])
  with Cons.IH n show ?case by simp
qed

lemma parse_Network:
  assumes "parseInterfaceSpec lib s = (spec, e)" and "Network spec = Some net"
  shows "interfaceSpec.Name spec = [] \<and> \<not> HasIndex spec \<and> \<not> IPv6 spec \<and> e = None
     \<and> Spec spec = s \<and> (\<exists>ip. ParseCIDR lib s = Inr (ip, net))"
  using assms
  by (auto simp: parseInterfaceSpec_def split: if_splits option.splits sum.splits prod.splits)

lemma Match_cidr:
  assumes "interfaceSpec.Name spec = []" "\<not> HasIndex spec" "Network spec = Some net"
    and "interfaceIP.Name iip \<noteq> []"
  shows "Match spec index iip = IPNet_Contains net (interfaceIP.IP iip)"
  using assms by (auto simp: Match_def)

text \<open>
  Claim C1. If rule \<open>k\<close> matches address \<open>j\<close> (with the counter of that address), no
  earlier address matches rule \<open>k\<close> and no address matches an earlier rule, then
  \<open>findIPWithSpecs\<close> returns the display string of address \<open>j\<close>, whatever the later
  rules would match. If no rule matches any address the result is the no-match error.
  A rule parsed from a CIDR text matches an address of the list that \<open>getinterfaceIPs\<close>
  builds from interfaces with names exactly when its network contains the address,
  whatever the interface of the address; so it does for every address on an interface
  with a non-empty name.
\<close>

theorem C1_rule_order_then_address_order:
  "(k < length specs \<and> j < length ips
      \<and> Match (specs ! k) (counters 0 [] ips ! j) (ips ! j)
      \<and> (\<forall>j'<j. \<not> Match (specs ! k) (counters 0 [] ips ! j') (ips ! j'))
      \<and> (\<forall>k'<k. \<forall>j'<length ips. \<not> Match (specs ! k') (counters 0 [] ips ! j') (ips ! j'))
     \<longrightarrow> findIPWithSpecs lib specs ips = (IPString lib (ips ! j), None))
   \<and> ((\<forall>k'<length specs. \<forall>j'<length ips.
          \<not> Match (specs ! k') (counters 0 [] ips ! j') (ips ! j'))
     \<longrightarrow> findIPWithSpecs lib specs ips = ([], Some (NoMatchError specs ips)))
   \<and> (parseInterfaceSpec lib s = (spec, e) \<and> Network spec = Some net
        \<and> interfaceIP.Name iip \<noteq> []
     \<longrightarrow> Match spec index iip = IPNet_Contains net (interfaceIP.IP iip))
   \<and> (parseInterfaceSpec lib s = (spec, e) \<and> Network spec = Some net
        \<and> (\<forall>intf\<in>set interfaces. Interface.Name intf \<noteq> [])
        \<and> iip \<in> set (fst (getinterfaceIPs lib interfaces))
     \<longrightarrow> Match spec index iip = IPNet_Contains net (interfaceIP.IP iip))"
proof (intro conjI impI)
  assume a: "k < length specs \<and> j < length ips
      \<and> Match (specs ! k) (counters 0 [] ips ! j) (ips ! j)
      \<and> (\<forall>j'<j. \<not> Match (specs ! k) (counters 0 [] ips ! j') (ips ! j'))
      \<and> (\<forall>k'<k. \<forall>j'<length ips. \<not> Match (specs ! k') (counters 0 [] ips ! j') (ips ! j'))"
  then have "scan (specs ! k) 0 [] ips = Some (ips ! j)"
    by (intro scan_first) simp_all
  moreover from a have "\<forall>k'<k. scan (specs ! k') 0 [] ips = None"
    by (auto intro: scan_none)
  ultimately have "firstMatch specs ips = Some (ips ! j)"
    using a by (intro firstMatch_first [of k]) simp_all
  then show "findIPWithSpecs lib specs ips = (IPString lib (ips ! j), None)"
    by (simp add: findIPWithSpecs_def)
next
  assume "\<forall>k'<length specs. \<forall>j'<length ips.
      \<not> Match (specs ! k') (counters 0 [] ips ! j') (ips ! j')"
  then have "\<forall>k<length specs. scan (specs ! k) 0 [] ips = None"
    by (auto intro: scan_none)
  then have "firstMatch specs ips = None" by (rule firstMatch_none)
  then show "findIPWithSpecs lib specs ips = ([], Some (NoMatchError specs ips))"
    by (simp add: findIPWithSpecs_def)
next
  assume a: "parseInterfaceSpec lib s = (spec, e) \<and> Network spec = Some net
      \<and> interfaceIP.Name iip \<noteq> []"
  with parse_Network [of lib s spec e net]
  show "Match spec index iip = IPNet_Contains net (interfaceIP.IP iip)"
    by (simp add: Match_cidr)
next
  assume a: "parseInterfaceSpec lib s = (spec, e) \<and> Network spec = Some net
      \<and> (\<forall>intf\<in>set interfaces. Interface.Name intf \<noteq> [])
      \<and> iip \<in> set (fst (getinterfaceIPs lib interfaces))"
  then have "interfaceIP.Name iip \<noteq> []"
    by (intro getinterfaceIPs_names [of interfaces iip lib]) simp_all
  with a parse_Network [of lib s spec e net]
  show "Match spec index iip = IPNet_Contains net (interfaceIP.IP iip)"
    by (simp add: Match_cidr)
qed

lemma FindStringSubmatch_cidr_examples:
  "ifaceSpec_FindStringSubmatch ''192.168.0.0/16'' = None"
  "ifaceSpec_FindStringSubmatch ''2001:db8::/32'' = None"
  by (simp_all add: ifaceSpec_FindStringSubmatch_def isWord_def isDigit_def)

lemma ParseCIDR_examples:
  "ParseCIDR example_lib ''192.168.0.0/16'' =
     Inr (v4 192 168 0 0, \<lparr>IPNet.IP = [192, 168, 0, 0], Mask = [255, 255, 0, 0]\<rparr>)"
  "ParseCIDR example_lib ''2001:db8::/32'' = Inr (IPNet.IP db8_net, db8_net)"
  by (simp_all add: example_lib_def)

lemma parse_cidr_examples:
  "parseInterfaceSpec example_lib ''192.168.0.0/16'' =
     (\<lparr>Spec = ''192.168.0.0/16'', IPv6 = False, Name = [],
       Network = Some \<lparr>IPNet.IP = [192, 168, 0, 0], Mask = [255, 255, 0, 0]\<rparr>,
       Index = 0, HasIndex = False\<rparr>, None)"
  "parseInterfaceSpec example_lib ''2001:db8::/32'' =
     (\<lparr>Spec = ''2001:db8::/32'', IPv6 = False, Name = [], Network = Some db8_net,
       Index = 0, HasIndex = False\<rparr>, None)"
  by (simp_all add: parseInterfaceSpec_def FindStringSubmatch_cidr_examples ParseCIDR_examples)

lemma parse_eth0_inet:
  "parseInterfaceSpec lib ''eth0:inet'' =
     (\<lparr>Spec = ''eth0:inet'', IPv6 = False, Name = ''eth0'', Network = None, Index = 0,
       HasIndex = False\<rparr>, None)"
  by (simp add: parseInterfaceSpec_def ifaceSpec_FindStringSubmatch_def isWord_def isDigit_def)

lemma Contains_examples:
  "IPNet_Contains \<lparr>IPNet.IP = [192, 168, 0, 0], Mask = [255, 255, 0, 0]\<rparr> (v4 192 168 5 5)"
  "\<not> IPNet_Contains \<lparr>IPNet.IP = [192, 168, 0, 0], Mask = [255, 255, 0, 0]\<rparr> (v4 10 0 0 5)"
  "IPNet_Contains db8_net db8_1"
  by (simp_all add: IPNet_Contains_def networkNumberAndMask_def IP_To4_def v4_def v4InV6Prefix_def
      isZeros_def db8_net_def db8_1_def)

lemma Match_examples:
  "\<not> Match \<lparr>Spec = ''192.168.0.0/16'', IPv6 = False, Name = [],
       Network = Some \<lparr>IPNet.IP = [192, 168, 0, 0], Mask = [255, 255, 0, 0]\<rparr>,
       Index = 0, HasIndex = False\<rparr> 0 \<lparr>interfaceIP.Name = ''eth0'', IP = v4 10 0 0 5\<rparr>"
  "Match \<lparr>Spec = ''192.168.0.0/16'', IPv6 = False, Name = [],
       Network = Some \<lparr>IPNet.IP = [192, 168, 0, 0], Mask = [255, 255, 0, 0]\<rparr>,
       Index = 0, HasIndex = False\<rparr> 0 \<lparr>interfaceIP.Name = ''eth1'', IP = v4 192 168 5 5\<rparr>"
  "Match \<lparr>Spec = ''eth0:inet'', IPv6 = False, Name = ''eth0'', Network = None, Index = 0,
       HasIndex = False\<rparr> 0 \<lparr>interfaceIP.Name = ''eth0'', IP = v4 10 0 0 5\<rparr>"
  by (simp_all add: Match_def Contains_examples IsIPv4_v4)

theorem C1_rule_order_then_address_order_witness:
  "findIPWithSpecs example_lib
     [fst (parseInterfaceSpec example_lib ''192.168.0.0/16''),
      fst (parseInterfaceSpec example_lib ''eth0:inet'')]
     [\<lparr>interfaceIP.Name = ''eth0'', IP = v4 10 0 0 5\<rparr>,
      \<lparr>interfaceIP.Name = ''eth1'', IP = v4 192 168 5 5\<rparr>] = (''192.168.5.5'', None)
   \<and> Match (fst (parseInterfaceSpec example_lib ''eth0:inet'')) 0
       \<lparr>interfaceIP.Name = ''eth0'', IP = v4 10 0 0 5\<rparr>
   \<and> Match (fst (parseInterfaceSpec example_lib ''192.168.0.0/16'')) 0
       \<lparr>interfaceIP.Name = ''eth1'', IP = v4 192 168 5 5\<rparr> =
     IPNet_Contains \<lparr>IPNet.IP = [192, 168, 0, 0], Mask = [255, 255, 0, 0]\<rparr> (v4 192 168 5 5)
   \<and> fst (getinterfaceIPs example_lib
       [\<lparr>Interface.Name = ''eth1'', Addrs = Inr [''192.168.5.5/16'']\<rparr>,
        \<lparr>Interface.Name = ''eth0'', Addrs = Inr [''10.0.0.5/24'']\<rparr>]) =
     [\<lparr>interfaceIP.Name = ''eth0'', IP = v4 10 0 0 5\<rparr>,
      \<lparr>interfaceIP.Name = ''eth1'', IP = v4 192 168 5 5\<rparr>]
   \<and> GetIP example_lib
       (Inr [\<lparr>Interface.Name = ''eth1'', Addrs = Inr [''192.168.5.5/16'']\<rparr>,
             \<lparr>Interface.Name = ''eth0'', Addrs = Inr [''10.0.0.5/24'']\<rparr>])
       [''192.168.0.0/16'', ''eth0:inet''] = (''192.168.5.5'', None)"
proof -
  let ?cidr = "\<lparr>Spec = ''192.168.0.0/16'', IPv6 = False, Name = [],
       Network = Some \<lparr>IPNet.IP = [192, 168, 0, 0], Mask = [255, 255, 0, 0]\<rparr>,
       Index = 0, HasIndex = False\<rparr>"
  let ?eth0 = "\<lparr>Spec = ''eth0:inet'', IPv6 = False, Name = ''eth0'', Network = None, Index = 0,
       HasIndex = False\<rparr>"
  let ?a = "\<lparr>interfaceIP.Name = ''eth0'', IP = v4 10 0 0 5\<rparr>"
  let ?b = "\<lparr>interfaceIP.Name = ''eth1'', IP = v4 192 168 5 5\<rparr>"
  let ?ifs = "[\<lparr>Interface.Name = ''eth1'', Addrs = Inr [''192.168.5.5/16'']\<rparr>,
        \<lparr>Interface.Name = ''eth0'', Addrs = Inr [''10.0.0.5/24'']\<rparr>]"
  have l: "Less ?a ?b" "\<not> Less ?b ?a"
    by (simp_all add: Less_def)
  have g: "getinterfaceIPs example_lib ?ifs = ([?a, ?b], None)"
    by (simp add: getinterfaceIPs_def Split_examples example_lib_def Stable_def l)
  have c: "counters 0 [] [?a, ?b] = [0, 0]" by simp
  have f: "findIPWithSpecs example_lib [?cidr, ?eth0] [?a, ?b] =
      (IPString example_lib ([?a, ?b] ! 1), None)"
    by (rule C1_rule_order_then_address_order [where k = 0 and j = 1, THEN conjunct1, THEN mp])
      (simp add: c Match_examples)
  have m: "Match ?cidr 0 ?b =
      IPNet_Contains \<lparr>IPNet.IP = [192, 168, 0, 0], Mask = [255, 255, 0, 0]\<rparr> (interfaceIP.IP ?b)"
    by (rule C1_rule_order_then_address_order [where lib = example_lib and s = "''192.168.0.0/16''"
          and e = None and interfaces = ?ifs,
          THEN conjunct2, THEN conjunct2, THEN conjunct2, THEN mp])
      (simp add: parse_cidr_examples g)
  have p: "parseInterfaceSpecs example_lib [''192.168.0.0/16'', ''eth0:inet''] =
      ([?cidr, ?eth0], None)"
    by (simp add: parseInterfaceSpecs_def parse_cidr_examples parse_eth0_inet)
  from f have r: "GetIP example_lib (Inr ?ifs) [''192.168.0.0/16'', ''eth0:inet''] =
      (''192.168.5.5'', None)"
    by (simp add: GetIP_def p g IPString_v4_examples)
  from f m r g show ?thesis
    by (simp add: parse_cidr_examples parse_eth0_inet IPString_v4_examples Match_examples)
qed

end
